theory Spec2Isabelle
  imports Main "HOL-Library.AList" "HOL-Library.Multiset"
begin

section \<open>Shared types (types.ts)\<close>

text \<open>
  Timestamps are the millisecond readings of \<open>Date.getTime()\<close> and \<open>Date.now()\<close>.
  Every operation that reads the clock takes the reading as an argument.
\<close>

type_synonym time = int

text \<open>\<open>export const MAX_DELEGATION_DEPTH = 5\<close>\<close>

definition MAX_DELEGATION_DEPTH :: int where
  "MAX_DELEGATION_DEPTH = 5"

datatype AgentErrorCode =
    AGENT_NOT_FOUND
  | SESSION_NOT_FOUND
  | SESSION_ALREADY_ACTIVE
  | EXECUTION_FAILED
  | CANCELLED
  | INVALID_CONFIG
  | DELEGATION_DEPTH_EXCEEDED
  | DELEGATION_CYCLE_DETECTED
  | DELEGATION_FAILED

text \<open>The enum's members are strings; the string is what a tool response carries.\<close>

fun code_string :: "AgentErrorCode \<Rightarrow> string" where
  "code_string AGENT_NOT_FOUND = ''AGENT_NOT_FOUND''"
| "code_string SESSION_NOT_FOUND = ''SESSION_NOT_FOUND''"
| "code_string SESSION_ALREADY_ACTIVE = ''SESSION_ALREADY_ACTIVE''"
| "code_string EXECUTION_FAILED = ''EXECUTION_FAILED''"
| "code_string CANCELLED = ''CANCELLED''"
| "code_string INVALID_CONFIG = ''INVALID_CONFIG''"
| "code_string DELEGATION_DEPTH_EXCEEDED = ''DELEGATION_DEPTH_EXCEEDED''"
| "code_string DELEGATION_CYCLE_DETECTED = ''DELEGATION_CYCLE_DETECTED''"
| "code_string DELEGATION_FAILED = ''DELEGATION_FAILED''"

text \<open>
  The \<open>details\<close> object of an \<open>AgentError\<close>, one constructor for each shape the
  sources build: \<open>{agent, available}\<close>, \<open>{session_id}\<close>,
  \<open>{depth, max_depth, chain}\<close> and \<open>{cycle_agent, chain}\<close>.
\<close>

datatype error_details =
    AgentDetails string "string list"
  | SessionDetails string
  | DepthDetails int int "string list"
  | CycleDetails string "string list"

text \<open>
  What the code throws: an \<open>AgentError\<close> (message, code, details) or a plain
  JavaScript \<open>Error\<close> (message only).
\<close>

datatype exn =
    AgentError string AgentErrorCode error_details
  | Error string

fun message :: "exn \<Rightarrow> string" where
  "message (AgentError m c d) = m"
| "message (Error m) = m"

text \<open>
  JavaScript truthiness of a string that may be \<open>undefined\<close>: \<open>undefined\<close> and the
  empty string are falsy.
\<close>

fun truthy :: "string option \<Rightarrow> bool" where
  "truthy None = False"
| "truthy (Some s) = (s \<noteq> [])"

text \<open>\<open>Array.prototype.join\<close>\<close>

fun join :: "string \<Rightarrow> string list \<Rightarrow> string" where
  "join sep [] = []"
| "join sep [x] = x"
| "join sep (x # y # ys) = x @ sep @ join sep (y # ys)"

text \<open>The separator \<open>' \<rightarrow> '\<close> of the chain messages, the arrow in UTF-8.\<close>

definition arrow_sep :: string where
  "arrow_sep = [CHR '' '', CHR 0xE2, CHR 0x86, CHR 0x92, CHR '' '']"

record ExecutionContext =
  depth :: int
  agentStack :: "string list"
  rootSessionId :: string

section \<open>Delegation contexts (index.ts)\<close>

definition createDefaultContext :: "string \<Rightarrow> string \<Rightarrow> ExecutionContext" where
  "createDefaultContext agentName sessionId =
     \<lparr>depth = 0, agentStack = [agentName], rootSessionId = sessionId\<rparr>"

definition createChildContext :: "ExecutionContext \<Rightarrow> string \<Rightarrow> exn + ExecutionContext" where
  "createChildContext parentContext childAgentName =
     (let newDepth = depth parentContext + 1 in
      if newDepth > MAX_DELEGATION_DEPTH then
        Inl (AgentError
          (''Delegation depth limit exceeded (max: 5). '' @ ''Chain: '' @
             join arrow_sep (agentStack parentContext) @ arrow_sep @ childAgentName)
          DELEGATION_DEPTH_EXCEEDED
          (DepthDetails newDepth MAX_DELEGATION_DEPTH
             (agentStack parentContext @ [childAgentName])))
      else if childAgentName \<in> set (agentStack parentContext) then
        Inl (AgentError
          (''Delegation cycle detected: '' @ childAgentName @
             '' is already in the call chain. '' @ ''Chain: '' @
             join arrow_sep (agentStack parentContext) @ arrow_sep @ childAgentName)
          DELEGATION_CYCLE_DETECTED
          (CycleDetails childAgentName (agentStack parentContext @ [childAgentName])))
      else
        Inr \<lparr>depth = newDepth,
             agentStack = agentStack parentContext @ [childAgentName],
             rootSessionId = rootSessionId parentContext\<rparr>)"

text \<open>
  Repeated descent: \<open>createChildContext\<close> applied along a list of agent names, stopping
  at the first error as the thrown exception does.
\<close>

fun descend :: "ExecutionContext \<Rightarrow> string list \<Rightarrow> exn + ExecutionContext" where
  "descend c [] = Inr c"
| "descend c (a # as) =
     (case createChildContext c a of Inl e \<Rightarrow> Inl e | Inr c' \<Rightarrow> descend c' as)"

text \<open>The code of a thrown value, for a caller that inspects \<open>error.code\<close>.\<close>

fun thrown_code :: "exn + 'a \<Rightarrow> AgentErrorCode option" where
  "thrown_code (Inl (AgentError m c d)) = Some c"
| "thrown_code (Inl (Error m)) = None"
| "thrown_code (Inr x) = None"

fun thrown_details :: "exn + 'a \<Rightarrow> error_details option" where
  "thrown_details (Inl (AgentError m c d)) = Some d"
| "thrown_details (Inl (Error m)) = None"
| "thrown_details (Inr x) = None"


section \<open>Session store (session-store.ts)\<close>

record SessionInfo =
  session_id :: string
  agent :: string
  initial_task :: string
  created_at :: time
  last_active :: time
  is_active :: bool

text \<open>
  A \<open>Query\<close> is the engine's handle of one running execution. The store only keeps it
  and calls \<open>interrupt()\<close> on it; the handle says whether that call rejects.
\<close>

record Query =
  query_id :: nat
  interrupt_rejects :: bool

text \<open>
  The two \<open>Map\<close>s of the class, as association lists in insertion order with unique
  keys: \<open>Map.set\<close> is \<open>AList.update\<close> (an existing key keeps its position, a new one
  goes last), \<open>Map.get\<close> is \<open>map_of\<close>, \<open>Map.delete\<close> is \<open>AList.delete\<close>.
  \<open>interrupted\<close> is the trace of the \<open>interrupt()\<close> calls the store has issued.
\<close>

record SessionStore =
  sessions :: "(string \<times> SessionInfo) list"
  activeQueries :: "(string \<times> Query) list"
  interrupted :: "Query list"

definition empty_store :: SessionStore where
  "empty_store = \<lparr>sessions = [], activeQueries = [], interrupted = []\<rparr>"

definition save :: "string \<Rightarrow> string \<Rightarrow> string \<Rightarrow> Query option \<Rightarrow> time \<Rightarrow> SessionStore \<Rightarrow> SessionStore" where
  "save sessionId agentName task query now st =
     (let existing = map_of (sessions st) sessionId;
          st1 = st\<lparr>sessions := AList.update sessionId
                  \<lparr>session_id = sessionId,
                   agent = agentName,
                   initial_task = (case existing of Some e \<Rightarrow> initial_task e | None \<Rightarrow> task),
                   created_at = (case existing of Some e \<Rightarrow> created_at e | None \<Rightarrow> now),
                   last_active = now,
                   is_active = (query \<noteq> None)\<rparr> (sessions st)\<rparr>
      in case query of
           Some q \<Rightarrow> st1\<lparr>activeQueries := AList.update sessionId q (activeQueries st1)\<rparr>
         | None \<Rightarrow> st1)"

definition complete :: "string \<Rightarrow> time \<Rightarrow> SessionStore \<Rightarrow> SessionStore" where
  "complete sessionId now st =
     st\<lparr>sessions := AList.map_entry sessionId
            (\<lambda>s. s\<lparr>is_active := False, last_active := now\<rparr>) (sessions st),
        activeQueries := AList.delete sessionId (activeQueries st)\<rparr>"

definition get :: "SessionStore \<Rightarrow> string \<Rightarrow> SessionInfo option" where
  "get st sessionId = map_of (sessions st) sessionId"

definition getOrThrow :: "SessionStore \<Rightarrow> string \<Rightarrow> exn + SessionInfo" where
  "getOrThrow st sessionId =
     (case map_of (sessions st) sessionId of
        None \<Rightarrow> Inl (AgentError (''Session not found: '' @ sessionId) SESSION_NOT_FOUND
                      (SessionDetails sessionId))
      | Some s \<Rightarrow> Inr s)"

definition getQuery :: "SessionStore \<Rightarrow> string \<Rightarrow> Query option" where
  "getQuery st sessionId = map_of (activeQueries st) sessionId"

definition has :: "SessionStore \<Rightarrow> string \<Rightarrow> bool" where
  "has st sessionId = (map_of (sessions st) sessionId \<noteq> None)"

definition isActive :: "SessionStore \<Rightarrow> string \<Rightarrow> bool" where
  "isActive st sessionId =
     (case map_of (sessions st) sessionId of Some s \<Rightarrow> is_active s | None \<Rightarrow> False)"

text \<open>The optional argument of \<open>list\<close>; each field may be absent.\<close>

record ListFilter =
  filter_agent :: "string option"
  active_only :: "bool option"

text \<open>
  \<open>Array.prototype.sort\<close> is stable, so with the comparator
  \<open>b.last_active - a.last_active\<close> it is the stable sort on the negated timestamp.
\<close>

definition list_sessions :: "ListFilter option \<Rightarrow> SessionStore \<Rightarrow> SessionInfo list" where
  "list_sessions flt st =
     (let all = map snd (sessions st);
          byAgent = (case flt of
                       Some f \<Rightarrow> (if truthy (filter_agent f)
                                  then filter (\<lambda>s. Some (agent s) = filter_agent f) all
                                  else all)
                     | None \<Rightarrow> all);
          byActive = (case flt of
                        Some f \<Rightarrow> (if active_only f = Some True
                                   then filter is_active byAgent
                                   else byAgent)
                      | None \<Rightarrow> byAgent)
      in sort_key (\<lambda>s. - last_active s) byActive)"

text \<open>
  \<open>cancel\<close> awaits \<open>query.interrupt()\<close> inside \<open>try\<close>; the \<open>catch\<close> branch runs when
  the call rejects. \<open>now\<close> is the clock reading of the \<open>complete\<close> that follows.
  The call is modelled as one step: operations of other callers that run while it
  awaits are not interleaved.
\<close>

definition cancel :: "string \<Rightarrow> time \<Rightarrow> SessionStore \<Rightarrow> bool \<times> SessionStore" where
  "cancel sessionId now st =
     (case map_of (activeQueries st) sessionId of
        Some q \<Rightarrow>
          (let st1 = st\<lparr>interrupted := interrupted st @ [q]\<rparr> in
           if \<not> interrupt_rejects q
           then (True, complete sessionId now st1)
           else (True, complete sessionId now st1))
      | None \<Rightarrow> (False, st))"

definition remove :: "string \<Rightarrow> SessionStore \<Rightarrow> bool \<times> SessionStore" where
  "remove sessionId st =
     (map_of (sessions st) sessionId \<noteq> None,
      st\<lparr>activeQueries := AList.delete sessionId (activeQueries st),
         sessions := AList.delete sessionId (sessions st)\<rparr>)"

definition clear :: "SessionStore \<Rightarrow> SessionStore" where
  "clear st =
     st\<lparr>interrupted := interrupted st @ map snd (activeQueries st),
        activeQueries := [],
        sessions := []\<rparr>"

definition store_size :: "SessionStore \<Rightarrow> nat" where
  "store_size st = length (sessions st)"

definition activeCount :: "SessionStore \<Rightarrow> nat" where
  "activeCount st = length (activeQueries st)"

text \<open>The public mutating operations of the store, and the states they reach.\<close>

datatype store_op =
    Save string string string "Query option" time
  | Complete string time
  | Cancel string time
  | Remove string
  | Clear

fun apply_op :: "store_op \<Rightarrow> SessionStore \<Rightarrow> SessionStore" where
  "apply_op (Save sid a t q now) st = save sid a t q now st"
| "apply_op (Complete sid now) st = complete sid now st"
| "apply_op (Cancel sid now) st = snd (cancel sid now st)"
| "apply_op (Remove sid) st = snd (remove sid st)"
| "apply_op Clear st = clear st"

definition run_ops :: "store_op list \<Rightarrow> SessionStore" where
  "run_ops ops = fold apply_op ops empty_store"

text \<open>
  Every session marked active has a handle registered under its id.
\<close>

definition active_have_handle :: "SessionStore \<Rightarrow> bool" where
  "active_have_handle st =
     list_all (\<lambda>k. case map_of (sessions st) k of
                      Some s \<Rightarrow> is_active s \<longrightarrow> map_of (activeQueries st) k \<noteq> None
                    | None \<Rightarrow> True)
       (map fst (sessions st))"

section \<open>Agent registry (agent-registry.ts)\<close>

record AgentConfig =
  name :: string
  description :: string
  systemPrompt :: string
  model :: "string option"

text \<open>The registry's \<open>agents\<close> map, in insertion order.\<close>

type_synonym AgentRegistry = "(string \<times> AgentConfig) list"

definition listNames :: "AgentRegistry \<Rightarrow> string list" where
  "listNames reg = map fst reg"

definition registry_getOrThrow :: "AgentRegistry \<Rightarrow> string \<Rightarrow> exn + AgentConfig" where
  "registry_getOrThrow reg agentName =
     (case map_of reg agentName of
        None \<Rightarrow>
          Inl (AgentError
            (''Agent not found: '' @ [CHR 0x22] @ agentName @ [CHR 0x22] @ ''. Available: '' @
               (let names = join '', '' (listNames reg) in
                if names \<noteq> [] then names else ''none''))
            AGENT_NOT_FOUND
            (AgentDetails agentName (listNames reg)))
      | Some config \<Rightarrow> Inr config)"

section \<open>Agent execution (index.ts)\<close>

record RunAgentParams =
  p_agent :: string
  p_task :: string
  resume :: "string option"
  fork :: "bool option"

record AgentResult =
  success :: bool
  result_session_id :: string
  summary :: string
  artifacts :: "string list option"
  error :: "string option"

text \<open>
  The messages of the engine's stream, with the fields \<open>processMessage\<close> reads:
  a system message has a subtype and a session id; a result message a subtype, the
  result text and, when the key is present, the error list; an assistant message
  may have a content array. A tool-use block has a name and \<open>input.file_path\<close>.
\<close>

datatype ContentBlock = ToolUse string "string option" | OtherBlock

datatype SDKMessage =
    System string string
  | Result string string "string list option"
  | Assistant "ContentBlock list option"
  | OtherMessage

record 's Handlers =
  onInit :: "string \<Rightarrow> 's \<Rightarrow> 's"
  onResult :: "string \<Rightarrow> 's \<Rightarrow> 's"
  onArtifact :: "string \<Rightarrow> 's \<Rightarrow> 's"
  onError :: "string \<Rightarrow> 's \<Rightarrow> 's"

fun processBlock :: "'s Handlers \<Rightarrow> ContentBlock \<Rightarrow> 's \<Rightarrow> 's" where
  "processBlock h (ToolUse toolName file_path) s =
     (if (toolName = ''Write'' \<or> toolName = ''Edit'') \<and> truthy file_path
      then (case file_path of Some p \<Rightarrow> onArtifact h p s | None \<Rightarrow> s)
      else s)"
| "processBlock h OtherBlock s = s"

fun processMessage :: "SDKMessage \<Rightarrow> 's Handlers \<Rightarrow> 's \<Rightarrow> 's" where
  "processMessage (System subtype sid) h s =
     (if subtype = ''init'' then onInit h sid s else s)"
| "processMessage (Result subtype res errs) h s =
     (if subtype = ''success'' then onResult h res s
      else (let errors = (case errs of Some es \<Rightarrow> es | None \<Rightarrow> []);
                joined = join ''; '' errors
            in onError h (if joined \<noteq> [] then joined else subtype) s))"
| "processMessage (Assistant content) h s =
     (case content of Some blocks \<Rightarrow> fold (processBlock h) blocks s | None \<Rightarrow> s)"
| "processMessage OtherMessage h s = s"

text \<open>
  One execution of the engine as \<open>runAgent\<close> sees it: the handle \<open>query()\<close> returns,
  the messages the stream yields with the clock reading at which each is processed,
  the message of the error the stream throws after them (if it throws; a \<open>query()\<close>
  call that throws is a stream that throws before any message), and the clock reading
  at the cleanup. The stream is finite: a run that never ends returns nothing.
\<close>

record EngineRun =
  handle :: Query
  events :: "(time \<times> SDKMessage) list"
  thrown :: "string option"
  finished_at :: time

text \<open>What a \<open>query()\<close> call hands to the engine (the session-related options).\<close>

record EngineCall =
  prompt :: string
  opt_resume :: "string option"
  opt_forkSession :: "bool option"

text \<open>
  The module's state: the session store, the \<open>executionContexts\<close> map, the trace of
  the calls made to the engine, and the warnings written to the console by the
  delegation handler (other diagnostic output is not recorded).
\<close>

record World =
  store :: SessionStore
  executionContexts :: "(string \<times> ExecutionContext) list"
  engine_calls :: "EngineCall list"
  console :: "string list"

definition empty_world :: World where
  "empty_world = \<lparr>store = empty_store, executionContexts = [], engine_calls = [], console = []\<rparr>"

text \<open>The local variables of \<open>runAgent\<close>.\<close>

record RunState =
  sessionId :: string
  result :: string
  artifactList :: "string list"
  errorMessage :: "string option"
  executionContext :: "ExecutionContext option"

definition output_requirements :: string where
  "output_requirements =
     [CHR 0x0A, CHR 0x0A] @ ''---'' @ [CHR 0x0A] @
     ''**Output Requirements**: When you complete this task, your final response MUST include:'' @
     [CHR 0x0A] @ ''1. A clear summary of what was accomplished'' @
     [CHR 0x0A] @ ''2. List of any files created or modified (with full paths)''"

definition run_handlers :: "RunAgentParams \<Rightarrow> Query \<Rightarrow> time \<Rightarrow> (RunState \<times> World) Handlers" where
  "run_handlers params q now =
     \<lparr>onInit = (\<lambda>sid (rs, w).
         (rs\<lparr>sessionId := sid\<rparr>,
          w\<lparr>store := save sid (p_agent params) (p_task params) (Some q) now (store w)\<rparr>)),
      onResult = (\<lambda>r (rs, w). (rs\<lparr>result := r\<rparr>, w)),
      onArtifact = (\<lambda>a (rs, w). (rs\<lparr>artifactList := artifactList rs @ [a]\<rparr>, w)),
      onError = (\<lambda>err (rs, w). (rs\<lparr>errorMessage := Some err\<rparr>, w))\<rparr>"

text \<open>The body of the \<open>for await\<close> loop.\<close>

definition register_context :: "RunAgentParams \<Rightarrow> SDKMessage \<Rightarrow> RunState \<times> World \<Rightarrow> RunState \<times> World" where
  "register_context params msg s =
     (case msg of
        System subtype sid \<Rightarrow>
          (if subtype = ''init'' then
             (let (rs, w) = s;
                  ctx = (case executionContext rs of
                           None \<Rightarrow> createDefaultContext (p_agent params) sid
                         | Some c \<Rightarrow> (if rootSessionId c = [] then c\<lparr>rootSessionId := sid\<rparr> else c))
              in (rs\<lparr>sessionId := sid, executionContext := Some ctx\<rparr>,
                  w\<lparr>executionContexts := AList.update sid ctx (executionContexts w)\<rparr>))
           else s)
      | _ \<Rightarrow> s)"

definition loop_body :: "RunAgentParams \<Rightarrow> Query \<Rightarrow> RunState \<times> World \<Rightarrow> time \<times> SDKMessage \<Rightarrow> RunState \<times> World" where
  "loop_body params q s ev =
     (case ev of (now, msg) \<Rightarrow>
        processMessage msg (run_handlers params q now) (register_context params msg s))"

text \<open>The cleanup both exits of the \<open>try\<close> perform.\<close>

definition cleanup :: "string \<Rightarrow> time \<Rightarrow> World \<Rightarrow> World" where
  "cleanup sid now w =
     (if sid \<noteq> [] then
        w\<lparr>executionContexts := AList.delete sid (executionContexts w),
          store := complete sid now (store w)\<rparr>
      else w)"

text \<open>The argument of the \<open>query()\<close> call and the initial values of the local variables.\<close>

definition engine_call_of :: "RunAgentParams \<Rightarrow> EngineCall" where
  "engine_call_of params =
     \<lparr>prompt = p_task params @ output_requirements,
      opt_resume = (if truthy (resume params) then resume params else None),
      opt_forkSession = (if fork params = Some True then Some True else None)\<rparr>"

definition initial_state :: "ExecutionContext option \<Rightarrow> RunState" where
  "initial_state context =
     \<lparr>sessionId = [], result = [], artifactList = [], errorMessage = None,
      executionContext = context\<rparr>"

text \<open>The object returned at the end of the \<open>try\<close> block, and the one the \<open>catch\<close> returns.\<close>

definition returned_result :: "RunState \<Rightarrow> AgentResult" where
  "returned_result rs =
     \<lparr>success = \<not> truthy (errorMessage rs),
      result_session_id = sessionId rs,
      summary = (if result rs \<noteq> [] then result rs
                 else if truthy (errorMessage rs)
                 then ''Error: '' @ (case errorMessage rs of Some m \<Rightarrow> m | None \<Rightarrow> [])
                 else ''No result''),
      artifacts = (if length (artifactList rs) > 0 then Some (artifactList rs) else None),
      error = errorMessage rs\<rparr>"

definition caught_result :: "RunState \<Rightarrow> string \<Rightarrow> AgentResult" where
  "caught_result rs errMsg =
     \<lparr>success = False,
      result_session_id = (if sessionId rs \<noteq> [] then sessionId rs else ''unknown''),
      summary = ''Agent execution failed: '' @ errMsg,
      artifacts = None,
      error = Some errMsg\<rparr>"

text \<open>
  The \<open>try\<close>/\<open>catch\<close> of \<open>runAgent\<close>: the call of \<open>query()\<close>, the loop over the
  stream, and the two exits, each with its cleanup.
\<close>

definition runAgent_try :: "RunAgentParams \<Rightarrow> ExecutionContext option \<Rightarrow> EngineRun \<Rightarrow> World \<Rightarrow> (exn + AgentResult) \<times> World" where
  "runAgent_try params context run w =
     (case foldl (loop_body params (handle run))
             (initial_state context, w\<lparr>engine_calls := engine_calls w @ [engine_call_of params]\<rparr>)
             (events run) of
        (rs, w2) \<Rightarrow>
          (case thrown run of
             None \<Rightarrow> (Inr (returned_result rs), cleanup (sessionId rs) (finished_at run) w2)
           | Some errMsg \<Rightarrow> (Inr (caught_result rs errMsg), cleanup (sessionId rs) (finished_at run) w2)))"

text \<open>
  \<open>runAgent\<close>. The result is the thrown error or the returned \<open>AgentResult\<close>, with the
  state after the call. The system prompt, the tool preset and the delegation server
  passed in the options are not part of the model. A call is modelled as one step
  from its start to its return: calls of the delegation tool that the engine makes
  while the stream runs are separate calls of \<open>handleDelegation\<close>, and operations of
  other callers are not interleaved with the loop.
\<close>

definition runAgent :: "AgentRegistry \<Rightarrow> RunAgentParams \<Rightarrow> ExecutionContext option \<Rightarrow> EngineRun \<Rightarrow> World \<Rightarrow> (exn + AgentResult) \<times> World" where
  "runAgent reg params context run w =
     (case registry_getOrThrow reg (p_agent params) of
        Inl e \<Rightarrow> (Inl e, w)
      | Inr agentConfig \<Rightarrow>
          (case (if truthy (resume params) then resume params else None) of
             Some r \<Rightarrow>
               if \<not> has (store w) r then
                 (Inl (AgentError (''Session not found: '' @ r) SESSION_NOT_FOUND
                        (SessionDetails r)), w)
               else if isActive (store w) r then
                 (Inl (AgentError (''Session '' @ r @ '' is already active. Use cancel_agent first.'')
                        SESSION_ALREADY_ACTIVE (SessionDetails r)), w)
               else runAgent_try params context run w
           | None \<Rightarrow> runAgent_try params context run w))"


text \<open>
  The same function in the three parts that an interleaved execution separates: the
  part that runs before the first \<open>await\<close> (the checks and the \<open>query()\<close> call), the
  loop body, once for each message the stream delivers, and the part after the loop
  (the two exits). Lemma \<open>runAgent_steps\<close> below shows that \<open>runAgent\<close> is their
  composition.
\<close>

definition runAgent_begin :: "AgentRegistry \<Rightarrow> RunAgentParams \<Rightarrow> World \<Rightarrow> exn + World" where
  "runAgent_begin reg params w =
     (case registry_getOrThrow reg (p_agent params) of
        Inl e \<Rightarrow> Inl e
      | Inr agentConfig \<Rightarrow>
          (case (if truthy (resume params) then resume params else None) of
             Some r \<Rightarrow>
               if \<not> has (store w) r then
                 Inl (AgentError (''Session not found: '' @ r) SESSION_NOT_FOUND (SessionDetails r))
               else if isActive (store w) r then
                 Inl (AgentError (''Session '' @ r @ '' is already active. Use cancel_agent first.'')
                        SESSION_ALREADY_ACTIVE (SessionDetails r))
               else Inr (w\<lparr>engine_calls := engine_calls w @ [engine_call_of params]\<rparr>)
           | None \<Rightarrow> Inr (w\<lparr>engine_calls := engine_calls w @ [engine_call_of params]\<rparr>)))"

definition runAgent_end :: "EngineRun \<Rightarrow> RunState \<Rightarrow> World \<Rightarrow> AgentResult \<times> World" where
  "runAgent_end run rs w =
     (case thrown run of
        None \<Rightarrow> (returned_result rs, cleanup (sessionId rs) (finished_at run) w)
      | Some errMsg \<Rightarrow> (caught_result rs errMsg, cleanup (sessionId rs) (finished_at run) w))"


section \<open>Delegation handler (index.ts)\<close>








section \<open>Batch execution (index.ts)\<close>

record BatchTask =
  b_agent :: string
  b_task :: string
  b_id :: "string option"

text \<open>
  A batch task result has the fields of an agent result (\<open>session_id\<close> is
  \<open>result_session_id\<close>) and two more.
\<close>

record BatchTaskResult = AgentResult +
  task_id :: string
  duration_ms :: int

record BatchResult =
  all_success :: bool
  succeeded :: nat
  failed :: nat
  total_duration_ms :: int
  results :: "BatchTaskResult list"

text \<open>Decimal digits of an array index, as the template string prints it.\<close>

fun show_nat :: "nat \<Rightarrow> string" where
  "show_nat n =
     (if n < 10 then [char_of (48 + n)]
      else show_nat (n div 10) @ [char_of (48 + n mod 10)])"

text \<open>
  What one task of a batch meets: the two readings of \<open>Date.now()\<close> around its
  \<open>runAgent\<close> call and the engine's execution for that call.
\<close>

record TaskEnv =
  taskStart :: time
  task_run :: EngineRun
  taskEnd :: time

text \<open>
  The callback mapped over \<open>params.tasks\<close>, run on its own from its start to its
  return.
\<close>

definition run_task :: "AgentRegistry \<Rightarrow> TaskEnv \<Rightarrow> nat \<Rightarrow> BatchTask \<Rightarrow> World \<Rightarrow> BatchTaskResult \<times> World" where
  "run_task reg env index task w =
     (let taskId = (if truthy (b_id task)
                    then (case b_id task of Some i \<Rightarrow> i | None \<Rightarrow> [])
                    else ''task-'' @ show_nat index)
      in case runAgent reg \<lparr>p_agent = b_agent task, p_task = b_task task, resume = None, fork = None\<rparr>
                None (task_run env) w of
           (Inr r, w') \<Rightarrow>
             (\<lparr>success = success r,
               result_session_id = result_session_id r,
               summary = summary r,
               artifacts = artifacts r,
               error = error r,
               task_id = taskId,
               duration_ms = taskEnd env - taskStart env\<rparr>, w')
         | (Inl e, w') \<Rightarrow>
             (\<lparr>success = False,
               result_session_id = ''failed'',
               summary = ''Failed: '' @ message e,
               artifacts = None,
               error = Some (message e),
               task_id = taskId,
               duration_ms = taskEnd env - taskStart env\<rparr>, w'))"

text \<open>
  The two objects the callback returns, from its \<open>try\<close> and from its \<open>catch\<close>.
\<close>

definition completed_task :: "string \<Rightarrow> TaskEnv \<Rightarrow> AgentResult \<Rightarrow> BatchTaskResult" where
  "completed_task taskId env r =
     \<lparr>success = success r,
      result_session_id = result_session_id r,
      summary = summary r,
      artifacts = artifacts r,
      error = error r,
      task_id = taskId,
      duration_ms = taskEnd env - taskStart env\<rparr>"

definition failed_task :: "string \<Rightarrow> TaskEnv \<Rightarrow> exn \<Rightarrow> BatchTaskResult" where
  "failed_task taskId env e =
     \<lparr>success = False,
      result_session_id = ''failed'',
      summary = ''Failed: '' @ message e,
      artifacts = None,
      error = Some (message e),
      task_id = taskId,
      duration_ms = taskEnd env - taskStart env\<rparr>"

text \<open>
  \<open>Promise.all\<close> over the mapped callbacks. \<open>map\<close> calls the callbacks in task order,
  and each runs until its first \<open>await\<close>: the checks of \<open>runAgent\<close> and its \<open>query()\<close>
  call. From then on the streams deliver in any order. A task is either settled,
  with its result, or running, with the messages its stream has yet to deliver and
  the local variables of its \<open>runAgent\<close> call.
\<close>

record Flight =
  fl_id :: string
  fl_env :: TaskEnv
  fl_params :: RunAgentParams
  fl_pending :: "(time \<times> SDKMessage) list"
  fl_state :: RunState

datatype Slot = Settled BatchTaskResult | Running Flight

definition start_task :: "AgentRegistry \<Rightarrow> TaskEnv \<Rightarrow> nat \<Rightarrow> BatchTask \<Rightarrow> World \<Rightarrow> Slot \<times> World" where
  "start_task reg env index task w =
     (let taskId = (if truthy (b_id task)
                    then (case b_id task of Some i \<Rightarrow> i | None \<Rightarrow> [])
                    else ''task-'' @ show_nat index);
          params = \<lparr>p_agent = b_agent task, p_task = b_task task, resume = None, fork = None\<rparr>
      in case runAgent_begin reg params w of
           Inl e \<Rightarrow> (Settled (failed_task taskId env e), w)
         | Inr w1 \<Rightarrow>
             (Running \<lparr>fl_id = taskId, fl_env = env, fl_params = params,
                       fl_pending = events (task_run env), fl_state = initial_state None\<rparr>, w1))"

fun start_tasks :: "AgentRegistry \<Rightarrow> (nat \<Rightarrow> TaskEnv) \<Rightarrow> nat \<Rightarrow> BatchTask list \<Rightarrow> World \<Rightarrow> Slot list \<times> World" where
  "start_tasks reg env index [] w = ([], w)"
| "start_tasks reg env index (t # ts) w =
     (let (sl, w1) = start_task reg (env index) index t w;
          (sls, w2) = start_tasks reg env (Suc index) ts w1
      in (sl # sls, w2))"

text \<open>
  One delivery of a running task's stream: the next message goes through the loop
  body; when none is left the stream has ended or thrown, and the part after the
  loop runs and settles the task. A settled task does nothing.
\<close>

definition advance :: "Slot \<Rightarrow> World \<Rightarrow> Slot \<times> World" where
  "advance sl w =
     (case sl of
        Settled r \<Rightarrow> (Settled r, w)
      | Running fl \<Rightarrow>
          (case fl_pending fl of
             ev # rest \<Rightarrow>
               (case loop_body (fl_params fl) (handle (task_run (fl_env fl))) (fl_state fl, w) ev of
                  (rs, w') \<Rightarrow> (Running (fl\<lparr>fl_pending := rest, fl_state := rs\<rparr>), w'))
           | [] \<Rightarrow>
               (case runAgent_end (task_run (fl_env fl)) (fl_state fl) w of
                  (r, w') \<Rightarrow> (Settled (completed_task (fl_id fl) (fl_env fl) r), w'))))"

text \<open>
  A schedule is the order of the deliveries, each entry the index of the task whose
  stream delivers next.
\<close>

fun run_schedule :: "nat list \<Rightarrow> Slot list \<Rightarrow> World \<Rightarrow> Slot list \<times> World" where
  "run_schedule [] slots w = (slots, w)"
| "run_schedule (i # sched) slots w =
     (if i < length slots
      then (case advance (slots ! i) w of
              (sl, w') \<Rightarrow> run_schedule sched (slots[i := sl]) w')
      else run_schedule sched slots w)"

text \<open>
  \<open>Promise.all\<close> waits for every task: the streams the schedule has not run out are
  run out after it, in task order.
\<close>

definition settle :: "Slot \<Rightarrow> World \<Rightarrow> BatchTaskResult \<times> World" where
  "settle sl w =
     (case sl of
        Settled r \<Rightarrow> (r, w)
      | Running fl \<Rightarrow>
          (case foldl (loop_body (fl_params fl) (handle (task_run (fl_env fl))))
                  (fl_state fl, w) (fl_pending fl) of
             (rs, w2) \<Rightarrow>
               (case runAgent_end (task_run (fl_env fl)) rs w2 of
                  (r, w3) \<Rightarrow> (completed_task (fl_id fl) (fl_env fl) r, w3))))"

fun settle_all :: "Slot list \<Rightarrow> World \<Rightarrow> BatchTaskResult list \<times> World" where
  "settle_all [] w = ([], w)"
| "settle_all (sl # sls) w =
     (let (r, w1) = settle sl w;
          (rs, w2) = settle_all sls w1
      in (r # rs, w2))"

definition runAgentsBatch :: "AgentRegistry \<Rightarrow> BatchTask list \<Rightarrow> (nat \<Rightarrow> TaskEnv) \<Rightarrow> nat list \<Rightarrow> time \<Rightarrow> time \<Rightarrow> World \<Rightarrow> BatchResult \<times> World" where
  "runAgentsBatch reg tasks env sched batchStart batchEnd w =
     (case start_tasks reg env 0 tasks w of
        (slots, w1) \<Rightarrow>
          (case run_schedule sched slots w1 of
             (slots', w2) \<Rightarrow>
               (case settle_all slots' w2 of
                  (rs, w3) \<Rightarrow>
                    (let nsucceeded = length (filter success rs);
                         nfailed = length (filter (\<lambda>r. \<not> success r) rs)
                     in (\<lparr>all_success = (nfailed = 0),
                          succeeded = nsucceeded,
                          failed = nfailed,
                          total_duration_ms = batchEnd - batchStart,
                          results = rs\<rparr>, w3)))))"

section \<open>Tool dispatch (index.ts)\<close>

text \<open>
  A tool response: the JSON content of a result, or the error response the handler's
  \<open>catch\<close> builds, \<open>{error, code}\<close> with \<open>isError: true\<close>.
\<close>

datatype 'a ToolResponse = Content 'a | IsError string string

definition error_response :: "exn \<Rightarrow> 'a ToolResponse" where
  "error_response e =
     IsError (message e)
       (case e of AgentError m c d \<Rightarrow> code_string c | Error m \<Rightarrow> ''UNKNOWN_ERROR'')"

text \<open>
  The arguments object of a \<open>run_agents_batch\<close> request. \<open>tasks_arg\<close> is \<open>None\<close> when
  the key is absent, falsy or not an array.
\<close>

record RunAgentsBatchArgs =
  tasks_arg :: "BatchTask list option"

text \<open>
  The message of the \<open>TypeError\<close> that reading \<open>params.tasks\<close> throws when the request
  has no arguments object; a \<open>TypeError\<close> is an \<open>Error\<close> that is not an \<open>AgentError\<close>.
\<close>

definition undefined_tasks_message :: string where
  "undefined_tasks_message =
     ''Cannot read properties of undefined (reading '' @ [CHR 0x27] @ ''tasks'' @ [CHR 0x27] @ '')''"

text \<open>
  The \<open>run_agents_batch\<close> case of the request handler, inside the handler's
  \<open>try\<close>/\<open>catch\<close>. \<open>args\<close> is \<open>None\<close> when the request has no arguments object.
\<close>

definition call_run_agents_batch :: "AgentRegistry \<Rightarrow> RunAgentsBatchArgs option \<Rightarrow> (nat \<Rightarrow> TaskEnv) \<Rightarrow> nat list \<Rightarrow> time \<Rightarrow> time \<Rightarrow> World \<Rightarrow> BatchResult ToolResponse \<times> World" where
  "call_run_agents_batch reg args env sched batchStart batchEnd w =
     (case args of
        None \<Rightarrow> (error_response (Error undefined_tasks_message), w)
      | Some params \<Rightarrow>
          (case tasks_arg params of
             None \<Rightarrow>
               (error_response (Error ''Missing required parameter: tasks (non-empty array)''), w)
           | Some ts \<Rightarrow>
               if length ts = 0 then
                 (error_response (Error ''Missing required parameter: tasks (non-empty array)''), w)
               else if length ts > 10 then
                 (error_response (Error ''Maximum 10 tasks per batch''), w)
               else (case runAgentsBatch reg ts env sched batchStart batchEnd w of
                       (r, w') \<Rightarrow> (Content r, w'))))"

section \<open>Selection by a filter\<close>

text \<open>
  The records a filter selects, as \<open>list\<close> tests them: a falsy \<open>agent\<close> (absent or
  empty) and an \<open>active_only\<close> other than \<open>true\<close> select everything.
\<close>

definition selected :: "ListFilter option \<Rightarrow> SessionInfo \<Rightarrow> bool" where
  "selected flt s =
     (case flt of
        None \<Rightarrow> True
      | Some f \<Rightarrow>
          (if truthy (filter_agent f) then Some (agent s) = filter_agent f else True) \<and>
          (if active_only f = Some True then is_active s else True))"

section \<open>The loop of \<open>runAgent\<close>, step by step\<close>

text \<open>
  Functions used to state and prove the properties: the session ids of the
  session-established (\<open>system\<close>/\<open>init\<close>) messages of a stream, the paths an assistant
  message contributes, and the effect of one loop iteration on the local variables
  and on the shared state, proved equal to \<open>loop_body\<close> below.
\<close>

fun init_ids :: "(time \<times> SDKMessage) list \<Rightarrow> string list" where
  "init_ids [] = []"
| "init_ids ((t, System subtype sid) # evs) =
     (if subtype = ''init'' then sid # init_ids evs else init_ids evs)"
| "init_ids ((t, Result subtype res errs) # evs) = init_ids evs"
| "init_ids ((t, Assistant content) # evs) = init_ids evs"
| "init_ids ((t, OtherMessage) # evs) = init_ids evs"

fun artifact_paths :: "ContentBlock list \<Rightarrow> string list" where
  "artifact_paths [] = []"
| "artifact_paths (ToolUse toolName file_path # bs) =
     (if (toolName = ''Write'' \<or> toolName = ''Edit'') \<and> truthy file_path
      then (case file_path of Some p \<Rightarrow> p # artifact_paths bs | None \<Rightarrow> artifact_paths bs)
      else artifact_paths bs)"
| "artifact_paths (OtherBlock # bs) = artifact_paths bs"

definition context_for :: "RunAgentParams \<Rightarrow> RunState \<Rightarrow> string \<Rightarrow> ExecutionContext" where
  "context_for params rs sid =
     (case executionContext rs of
        None \<Rightarrow> createDefaultContext (p_agent params) sid
      | Some c \<Rightarrow> (if rootSessionId c = [] then c\<lparr>rootSessionId := sid\<rparr> else c))"

fun next_state :: "RunAgentParams \<Rightarrow> SDKMessage \<Rightarrow> RunState \<Rightarrow> RunState" where
  "next_state params (System subtype sid) rs =
     (if subtype = ''init''
      then rs\<lparr>sessionId := sid, executionContext := Some (context_for params rs sid)\<rparr>
      else rs)"
| "next_state params (Result subtype res errs) rs =
     (if subtype = ''success'' then rs\<lparr>result := res\<rparr>
      else rs\<lparr>errorMessage :=
             Some (if join ''; '' (case errs of Some es \<Rightarrow> es | None \<Rightarrow> []) \<noteq> []
                   then join ''; '' (case errs of Some es \<Rightarrow> es | None \<Rightarrow> [])
                   else subtype)\<rparr>)"
| "next_state params (Assistant content) rs =
     (case content of
        Some blocks \<Rightarrow> rs\<lparr>artifactList := artifactList rs @ artifact_paths blocks\<rparr>
      | None \<Rightarrow> rs)"
| "next_state params OtherMessage rs = rs"

fun next_world :: "RunAgentParams \<Rightarrow> Query \<Rightarrow> time \<Rightarrow> SDKMessage \<Rightarrow> RunState \<Rightarrow> World \<Rightarrow> World" where
  "next_world params q now (System subtype sid) rs w =
     (if subtype = ''init''
      then w\<lparr>executionContexts := AList.update sid (context_for params rs sid) (executionContexts w),
             store := save sid (p_agent params) (p_task params) (Some q) now (store w)\<rparr>
      else w)"
| "next_world params q now (Result subtype res errs) rs w = w"
| "next_world params q now (Assistant content) rs w = w"
| "next_world params q now OtherMessage rs w = w"

text \<open>
  The checks \<open>runAgent\<close> makes before it calls the engine: the agent resolves, and a
  truthy resume id names a session that exists and is not active.
\<close>

definition preconditions_hold :: "AgentRegistry \<Rightarrow> RunAgentParams \<Rightarrow> World \<Rightarrow> bool" where
  "preconditions_hold reg params w =
     (map_of reg (p_agent params) \<noteq> None \<and>
      (case resume params of
         Some r \<Rightarrow> (if r \<noteq> [] then has (store w) r \<and> \<not> isActive (store w) r else True)
       | None \<Rightarrow> True))"

section \<open>Outcome of a batch task\<close>

text \<open>
  What the \<open>runAgent\<close> call of a batch task yields: the error it throws or the result
  it returns. A fresh root run reads nothing of the shared state (lemma
  \<open>fst_runAgent_task\<close> below), so the outcome is the same from every state and is
  defined here from the empty one. A task fails when the call throws or returns
  \<open>success = false\<close>. \<open>default_task_id\<close> is the id its result carries.
\<close>

definition task_outcome :: "AgentRegistry \<Rightarrow> TaskEnv \<Rightarrow> BatchTask \<Rightarrow> exn + AgentResult" where
  "task_outcome reg env task =
     fst (runAgent reg \<lparr>p_agent = b_agent task, p_task = b_task task, resume = None, fork = None\<rparr>
            None (task_run env) empty_world)"

definition task_fails :: "AgentRegistry \<Rightarrow> TaskEnv \<Rightarrow> BatchTask \<Rightarrow> bool" where
  "task_fails reg env task =
     (case task_outcome reg env task of Inl e \<Rightarrow> True | Inr r \<Rightarrow> \<not> success r)"

definition default_task_id :: "nat \<Rightarrow> BatchTask \<Rightarrow> string" where
  "default_task_id index task =
     (if truthy (b_id task) then (case b_id task of Some i \<Rightarrow> i | None \<Rightarrow> [])
      else ''task-'' @ show_nat index)"

text \<open>
  The result a task of a batch is bound for, whatever the schedule: a settled task has
  it; for a running task it is what the rest of its stream makes of its local
  variables (lemmas \<open>advance_final_result\<close> and \<open>settle_final_result\<close> below).
\<close>

definition end_result :: "EngineRun \<Rightarrow> RunState \<Rightarrow> AgentResult" where
  "end_result run rs =
     (case thrown run of None \<Rightarrow> returned_result rs | Some errMsg \<Rightarrow> caught_result rs errMsg)"

fun final_result :: "Slot \<Rightarrow> BatchTaskResult" where
  "final_result (Settled r) = r"
| "final_result (Running fl) =
     completed_task (fl_id fl) (fl_env fl)
       (end_result (task_run (fl_env fl))
          (foldl (\<lambda>rs ev. next_state (fl_params fl) (snd ev) rs) (fl_state fl) (fl_pending fl)))"

section \<open>Example values\<close>

definition example_query :: Query where
  "example_query = \<lparr>query_id = 1, interrupt_rejects = True\<rparr>"

definition example_run :: EngineRun where
  "example_run =
     \<lparr>handle = example_query,
      events = [(10, System ''init'' ''s1''), (11, Result ''success'' ''done'' None)],
      thrown = None,
      finished_at = 12\<rparr>"

definition example_env :: "nat \<Rightarrow> TaskEnv" where
  "example_env i = \<lparr>taskStart = 0, task_run = example_run, taskEnd = 12\<rparr>"

definition example_registry :: AgentRegistry where
  "example_registry =
     [(''coder'', \<lparr>name = ''coder'', description = ''writes code'',
                   systemPrompt = ''You write code.'', model = None\<rparr>)]"

definition example_task :: BatchTask where
  "example_task = \<lparr>b_agent = ''coder'', b_task = ''fix it'', b_id = None\<rparr>"

definition example_store :: SessionStore where
  "example_store =
     save ''s2'' ''reviewer'' ''check it'' None 10
       (save ''s1'' ''coder'' ''fix it'' (Some example_query) 10 empty_store)"

definition example_params :: RunAgentParams where
  "example_params = \<lparr>p_agent = ''coder'', p_task = ''fix it'', resume = None, fork = None\<rparr>"

definition example_failed_run :: EngineRun where
  "example_failed_run =
     \<lparr>handle = example_query,
      events = [(10, Assistant None)],
      thrown = Some ''engine crashed'',
      finished_at = 11\<rparr>"

definition example_bad_task :: BatchTask where
  "example_bad_task = \<lparr>b_agent = ''ghost'', b_task = ''haunt'', b_id = Some ''b''\<rparr>"


definition example_resume_params :: RunAgentParams where
  "example_resume_params = \<lparr>p_agent = ''coder'', p_task = ''now add tests'', resume = Some ''s1'', fork = None\<rparr>"

definition example_resume_run :: EngineRun where
  "example_resume_run =
     \<lparr>handle = \<lparr>query_id = 2, interrupt_rejects = False\<rparr>,
      events = [(30, System ''init'' ''s1''), (31, Result ''success'' ''tests added'' None)],
      thrown = None,
      finished_at = 32\<rparr>"

definition example_idle_session :: SessionInfo where
  "example_idle_session =
     \<lparr>session_id = ''s1'', agent = ''coder'', initial_task = ''fix it'',
      created_at = 10, last_active = 20, is_active = False\<rparr>"

definition example_idle_world :: World where
  "example_idle_world =
     empty_world\<lparr>store := complete ''s1'' 20 (save ''s1'' ''coder'' ''fix it'' (Some example_query) 10 empty_store)\<rparr>"

definition example_busy_world :: World where
  "example_busy_world =
     empty_world\<lparr>store := save ''s1'' ''coder'' ''fix it'' (Some example_query) 10 empty_store\<rparr>"

definition example_schedule :: "nat list" where
  "example_schedule = [1, 0, 1, 0, 0, 1]"




definition example_unknown_run :: EngineRun where
  "example_unknown_run =
     \<lparr>handle = example_query,
      events = [(10, System ''init'' ''unknown''), (11, Result ''success'' ''done'' None)],
      thrown = None,
      finished_at = 12\<rparr>"

definition example_unknown_resume :: RunAgentParams where
  "example_unknown_resume =
     \<lparr>p_agent = ''coder'', p_task = ''carry on'', resume = Some ''unknown'', fork = None\<rparr>"

definition example_run_of :: "string \<Rightarrow> EngineRun" where
  "example_run_of sid =
     \<lparr>handle = example_query,
      events = [(10, System ''init'' sid), (11, Result ''success'' ''done'' None)],
      thrown = None,
      finished_at = 12\<rparr>"

definition example_two_env :: "nat \<Rightarrow> TaskEnv" where
  "example_two_env i =
     \<lparr>taskStart = 0,
      task_run = (if i = 0 then example_run_of ''a'' else example_run_of ''b''),
      taskEnd = 12\<rparr>"

section \<open>Properties of the delegation contexts\<close>

lemma createChildContext_ok:
  "depth c + 1 \<le> MAX_DELEGATION_DEPTH \<Longrightarrow> a \<notin> set (agentStack c) \<Longrightarrow>
   createChildContext c a = Inr \<lparr>depth = depth c + 1, agentStack = agentStack c @ [a], rootSessionId = rootSessionId c\<rparr>"
  by (simp add: createChildContext_def Let_def)

lemma descend_distinct:
  "distinct (agentStack c @ names) \<Longrightarrow> depth c + int (length names) \<le> MAX_DELEGATION_DEPTH \<Longrightarrow>
   descend c names = Inr \<lparr>depth = depth c + int (length names), agentStack = agentStack c @ names,
                           rootSessionId = rootSessionId c\<rparr>"
proof (induction names arbitrary: c)
  case Nil
  then show ?case by simp
next
  case (Cons a as)
  let ?c' = "\<lparr>depth = depth c + 1, agentStack = agentStack c @ [a], rootSessionId = rootSessionId c\<rparr>"
  have ok: "createChildContext c a = Inr ?c'"
    using Cons.prems by (intro createChildContext_ok) auto
  have "descend ?c' as = Inr \<lparr>depth = depth ?c' + int (length as), agentStack = agentStack ?c' @ as,
                           rootSessionId = rootSessionId ?c'\<rparr>"
    using Cons.prems by (intro Cons.IH) auto
  then show ?case using ok by (simp add: add.assoc)
qed

lemma descend_append:
  "descend c (xs @ ys) = (case descend c xs of Inl e \<Rightarrow> Inl e | Inr c' \<Rightarrow> descend c' ys)"
  by (induction xs arbitrary: c) (auto split: sum.splits)

text \<open>
  C1 (as amended). \<open>createChildContext\<close> throws \<open>DELEGATION_DEPTH_EXCEEDED\<close> exactly when
  \<open>parent.depth + 1\<close> exceeds 5, whether or not the child is already in the chain (the
  depth check comes first). Descending from a root along distinct agent names succeeds
  for up to 5 descents, giving depth 5 and a chain of 6 names; the sixth descent, from
  depth 5 to depth 6, is the one that throws.
\<close>

theorem createChildContext_depth_bound:
  "(thrown_code (createChildContext parent child) = Some DELEGATION_DEPTH_EXCEEDED
      \<longleftrightarrow> depth parent + 1 > 5)
   \<and> (distinct (a # names) \<and> length names \<le> 5 \<longrightarrow>
        descend (createDefaultContext a sid) names =
          Inr \<lparr>depth = int (length names), agentStack = a # names, rootSessionId = sid\<rparr>)
   \<and> (distinct (a # names) \<and> length names = 5 \<longrightarrow>
        thrown_code (descend (createDefaultContext a sid) (names @ [c])) =
          Some DELEGATION_DEPTH_EXCEEDED)"
proof (intro conjI impI)
  show "thrown_code (createChildContext parent child) = Some DELEGATION_DEPTH_EXCEEDED
      \<longleftrightarrow> depth parent + 1 > 5"
    by (simp add: createChildContext_def Let_def MAX_DELEGATION_DEPTH_def)
next
  assume h: "distinct (a # names) \<and> length names \<le> 5"
  have "descend (createDefaultContext a sid) names =
     Inr \<lparr>depth = depth (createDefaultContext a sid) + int (length names),
          agentStack = agentStack (createDefaultContext a sid) @ names,
          rootSessionId = rootSessionId (createDefaultContext a sid)\<rparr>"
    using h by (intro descend_distinct) (auto simp: createDefaultContext_def MAX_DELEGATION_DEPTH_def)
  then show "descend (createDefaultContext a sid) names =
          Inr \<lparr>depth = int (length names), agentStack = a # names, rootSessionId = sid\<rparr>"
    by (simp add: createDefaultContext_def)
next
  assume h: "distinct (a # names) \<and> length names = 5"
  have "descend (createDefaultContext a sid) names =
     Inr \<lparr>depth = depth (createDefaultContext a sid) + int (length names),
          agentStack = agentStack (createDefaultContext a sid) @ names,
          rootSessionId = rootSessionId (createDefaultContext a sid)\<rparr>"
    using h by (intro descend_distinct) (auto simp: createDefaultContext_def MAX_DELEGATION_DEPTH_def)
  then show "thrown_code (descend (createDefaultContext a sid) (names @ [c])) =
          Some DELEGATION_DEPTH_EXCEEDED"
    using h by (simp add: descend_append createDefaultContext_def createChildContext_def Let_def MAX_DELEGATION_DEPTH_def)
qed

theorem createChildContext_depth_bound_witness:
  "thrown_code (createChildContext \<lparr>depth = 5, agentStack = [''a'', ''b'', ''c'', ''d'', ''e'', ''f''], rootSessionId = ''s''\<rparr> ''a'')
      = Some DELEGATION_DEPTH_EXCEEDED
   \<and> distinct [''a'', ''b'', ''c'', ''d'', ''e'', ''f''] \<and> length [''b'', ''c'', ''d'', ''e'', ''f''] = 5
   \<and> descend (createDefaultContext ''a'' ''s'') [''b'', ''c'', ''d'', ''e'', ''f''] =
          Inr \<lparr>depth = 5, agentStack = [''a'', ''b'', ''c'', ''d'', ''e'', ''f''], rootSessionId = ''s''\<rparr>
   \<and> thrown_code (descend (createDefaultContext ''a'' ''s'') [''b'', ''c'', ''d'', ''e'', ''f'', ''g''])
      = Some DELEGATION_DEPTH_EXCEEDED"
  using createChildContext_depth_bound [of "\<lparr>depth = 5, agentStack = [''a'', ''b'', ''c'', ''d'', ''e'', ''f''], rootSessionId = ''s''\<rparr>" "''a''"
     "''a''" "[''b'', ''c'', ''d'', ''e'', ''f'']" "''s''" "''g''"]
  by simp

text \<open>
  C1 as stated fails: a context whose chain has 5 names (depth 4) descends to a chain
  of 6 names without error, so the step from chain length 5 to chain length 6 does not
  throw.
\<close>

theorem chain_length_counterexample:
  "descend (createDefaultContext ''a'' ''s'') [''b'', ''c'', ''d'', ''e''] =
     Inr \<lparr>depth = 4, agentStack = [''a'', ''b'', ''c'', ''d'', ''e''], rootSessionId = ''s''\<rparr>
   \<and> length [''a'', ''b'', ''c'', ''d'', ''e''] = nat MAX_DELEGATION_DEPTH
   \<and> createChildContext \<lparr>depth = 4, agentStack = [''a'', ''b'', ''c'', ''d'', ''e''], rootSessionId = ''s''\<rparr> ''f'' =
     Inr \<lparr>depth = 5, agentStack = [''a'', ''b'', ''c'', ''d'', ''e'', ''f''], rootSessionId = ''s''\<rparr>"
  by (simp add: createDefaultContext_def createChildContext_def Let_def MAX_DELEGATION_DEPTH_def)

text \<open>
  C2. When the depth check passes and the child already appears in the parent's chain,
  \<open>createChildContext\<close> throws \<open>DELEGATION_CYCLE_DETECTED\<close> whose chain is the parent's
  chain followed by the child. A root delegating to itself is such a case, and for
  planner, coder, reviewer delegating back to planner the chain reported is
  planner, coder, reviewer, planner.
\<close>

theorem createChildContext_cycle:
  "(depth parent + 1 \<le> MAX_DELEGATION_DEPTH \<and> child \<in> set (agentStack parent) \<longrightarrow>
      thrown_code (createChildContext parent child) = Some DELEGATION_CYCLE_DETECTED
    \<and> thrown_details (createChildContext parent child) =
        Some (CycleDetails child (agentStack parent @ [child])))
   \<and> thrown_code (createChildContext (createDefaultContext a sid) a) = Some DELEGATION_CYCLE_DETECTED
   \<and> descend (createDefaultContext ''planner'' sid) [''coder'', ''reviewer''] =
        Inr \<lparr>depth = 2, agentStack = [''planner'', ''coder'', ''reviewer''], rootSessionId = sid\<rparr>
   \<and> thrown_code (createChildContext
        \<lparr>depth = 2, agentStack = [''planner'', ''coder'', ''reviewer''], rootSessionId = sid\<rparr>
        ''planner'') = Some DELEGATION_CYCLE_DETECTED
   \<and> thrown_details (createChildContext
        \<lparr>depth = 2, agentStack = [''planner'', ''coder'', ''reviewer''], rootSessionId = sid\<rparr>
        ''planner'') =
        Some (CycleDetails ''planner'' [''planner'', ''coder'', ''reviewer'', ''planner''])"
  by (simp add: createDefaultContext_def createChildContext_def Let_def MAX_DELEGATION_DEPTH_def)

theorem createChildContext_cycle_witness:
  "depth \<lparr>depth = 1, agentStack = [''x'', ''y''], rootSessionId = ''s''\<rparr> + 1 \<le> MAX_DELEGATION_DEPTH
   \<and> ''x'' \<in> set (agentStack \<lparr>depth = 1, agentStack = [''x'', ''y''], rootSessionId = ''s''\<rparr>)
   \<and> thrown_code (createChildContext \<lparr>depth = 1, agentStack = [''x'', ''y''], rootSessionId = ''s''\<rparr> ''x'')
       = Some DELEGATION_CYCLE_DETECTED
   \<and> thrown_details (createChildContext \<lparr>depth = 1, agentStack = [''x'', ''y''], rootSessionId = ''s''\<rparr> ''x'')
       = Some (CycleDetails ''x'' [''x'', ''y'', ''x''])"
  using createChildContext_cycle [of "\<lparr>depth = 1, agentStack = [''x'', ''y''], rootSessionId = ''s''\<rparr>" "''x''" "''x''" "''s''"]
  by (simp add: MAX_DELEGATION_DEPTH_def)

section \<open>Properties of the session store\<close>


lemma map_of_map_entry_same:
  "map_of (AList.map_entry k f xs) k = map_option f (map_of xs k)"
  by (simp add: map_of_map_entry split: option.splits)

lemma map_of_delete_same: "map_of (AList.delete k al) k = None"
  by (simp add: AList.delete_conv)

lemma map_of_delete_other: "k' \<noteq> k \<Longrightarrow> map_of (AList.delete k al) k' = map_of al k'"
  by (simp add: AList.delete_conv)

text \<open>
  C3. When a handle is registered for the session id, \<open>cancel\<close> calls its \<open>interrupt\<close>
  (the call is appended to the trace) and, whether or not that call rejects, returns
  true with the session marked inactive and the handle released; the record is
  otherwise as it was, with \<open>last_active\<close> set. When no handle is registered, \<open>cancel\<close>
  returns false and the store is unchanged.
\<close>

theorem cancel_marks_complete:
  "(map_of (activeQueries st) sid = Some q \<longrightarrow>
      fst (cancel sid now st) = True
    \<and> interrupted (snd (cancel sid now st)) = interrupted st @ [q]
    \<and> isActive (snd (cancel sid now st)) sid = False
    \<and> getQuery (snd (cancel sid now st)) sid = None
    \<and> get (snd (cancel sid now st)) sid =
        map_option (\<lambda>s. s\<lparr>is_active := False, last_active := now\<rparr>) (get st sid))
   \<and> (map_of (activeQueries st) sid = None \<longrightarrow> cancel sid now st = (False, st))"
  by (cases "map_of (sessions st) sid")
     (simp_all add: cancel_def complete_def isActive_def getQuery_def get_def Let_def
        map_of_map_entry_same map_of_delete_same)


theorem cancel_marks_complete_witness:
  "map_of (activeQueries (save ''s1'' ''coder'' ''fix it'' (Some example_query) 10 empty_store)) ''s1''
     = Some example_query
   \<and> interrupt_rejects example_query
   \<and> fst (cancel ''s1'' 20 (save ''s1'' ''coder'' ''fix it'' (Some example_query) 10 empty_store)) = True
   \<and> isActive (snd (cancel ''s1'' 20 (save ''s1'' ''coder'' ''fix it'' (Some example_query) 10 empty_store))) ''s1'' = False
   \<and> getQuery (snd (cancel ''s1'' 20 (save ''s1'' ''coder'' ''fix it'' (Some example_query) 10 empty_store))) ''s1'' = None
   \<and> map_of (activeQueries empty_store) ''s1'' = None
   \<and> cancel ''s1'' 20 empty_store = (False, empty_store)"
  using cancel_marks_complete [of "save ''s1'' ''coder'' ''fix it'' (Some example_query) 10 empty_store" "''s1''" example_query 20]
    cancel_marks_complete [of empty_store "''s1''" example_query 20]
  by (simp add: save_def empty_store_def example_query_def)

text \<open>
  C4. Saving an active session again without a handle marks its record inactive and
  leaves the handle registered: the record has \<open>is_active = false\<close> while
  \<open>activeQueries\<close> still holds an entry for the id, \<open>activeCount\<close> counts it, and
  \<open>cancel\<close> interrupts it.
\<close>

theorem save_without_query_keeps_handle:
  "get (run_ops [Save ''s1'' ''coder'' ''fix it'' (Some example_query) 10,
                 Save ''s1'' ''coder'' ''again'' None 20]) ''s1'' =
     Some \<lparr>session_id = ''s1'', agent = ''coder'', initial_task = ''fix it'',
           created_at = 10, last_active = 20, is_active = False\<rparr>
   \<and> getQuery (run_ops [Save ''s1'' ''coder'' ''fix it'' (Some example_query) 10,
                        Save ''s1'' ''coder'' ''again'' None 20]) ''s1'' = Some example_query
   \<and> activeCount (run_ops [Save ''s1'' ''coder'' ''fix it'' (Some example_query) 10,
                           Save ''s1'' ''coder'' ''again'' None 20]) = 1
   \<and> fst (cancel ''s1'' 30 (run_ops [Save ''s1'' ''coder'' ''fix it'' (Some example_query) 10,
                           Save ''s1'' ''coder'' ''again'' None 20])) = True"
  by (simp add: run_ops_def save_def empty_store_def get_def getQuery_def activeCount_def cancel_def Let_def)

text \<open>
  The other half of the handle invariant holds in every reachable state: a record
  marked active always has a handle.
\<close>

lemma active_have_handle_iff:
  "active_have_handle st \<longleftrightarrow>
     (\<forall>k s. map_of (sessions st) k = Some s \<longrightarrow> is_active s \<longrightarrow> map_of (activeQueries st) k \<noteq> None)"
proof
  assume h: "active_have_handle st"
  show "\<forall>k s. map_of (sessions st) k = Some s \<longrightarrow> is_active s \<longrightarrow> map_of (activeQueries st) k \<noteq> None"
  proof (intro allI impI)
    fix k s
    assume m: "map_of (sessions st) k = Some s" and a: "is_active s"
    from m have "k \<in> set (map fst (sessions st))"
      by (metis map_of_eq_None_iff option.distinct(1) set_map)
    with h m a show "map_of (activeQueries st) k \<noteq> None"
      by (auto simp: active_have_handle_def list_all_iff)
  qed
next
  assume "\<forall>k s. map_of (sessions st) k = Some s \<longrightarrow> is_active s \<longrightarrow> map_of (activeQueries st) k \<noteq> None"
  then show "active_have_handle st"
    by (auto simp: active_have_handle_def list_all_iff split: option.splits)
qed

lemma active_have_handle_save:
  assumes "active_have_handle st"
  shows "active_have_handle (save sid a t q now st)"
proof (cases q)
  case None
  then show ?thesis
    using assms by (auto simp: active_have_handle_iff save_def Let_def AList.update_conv' split: if_splits)
next
  case (Some h)
  then show ?thesis
    using assms by (auto simp: active_have_handle_iff save_def Let_def AList.update_conv' split: if_splits)
qed

lemma active_have_handle_complete:
  assumes "active_have_handle st"
  shows "active_have_handle (complete sid now st)"
  using assms
  by (auto simp: active_have_handle_iff complete_def AList.delete_conv map_of_map_entry split: if_splits option.splits)

lemma active_have_handle_interrupted:
  "active_have_handle (st\<lparr>interrupted := xs\<rparr>) = active_have_handle st"
  by (simp add: active_have_handle_iff)

lemma active_have_handle_apply_op:
  assumes "active_have_handle st"
  shows "active_have_handle (apply_op op st)"
proof (cases op)
  case (Save sid a t q now)
  then show ?thesis using assms by (simp add: active_have_handle_save)
next
  case (Complete sid now)
  then show ?thesis using assms by (simp add: active_have_handle_complete)
next
  case (Cancel sid now)
  then show ?thesis using assms
    by (auto simp: cancel_def Let_def active_have_handle_complete active_have_handle_interrupted
             split: option.splits)
next
  case (Remove sid)
  then show ?thesis using assms
    by (auto simp: remove_def active_have_handle_iff AList.delete_conv split: if_splits)
next
  case Clear
  then show ?thesis by (simp add: clear_def active_have_handle_iff)
qed

lemma active_have_handle_fold:
  "active_have_handle st \<Longrightarrow> active_have_handle (fold apply_op ops st)"
  by (induction ops arbitrary: st) (simp_all add: active_have_handle_apply_op)

lemma active_have_handle_reachable: "active_have_handle (run_ops ops)"
  unfolding run_ops_def
  by (rule active_have_handle_fold) (simp add: active_have_handle_iff empty_store_def)



section \<open>Properties of the session listing\<close>

lemma list_sessions_eq:
  "list_sessions flt st =
     sort_key (\<lambda>s. - last_active s) (filter (selected flt) (map snd (sessions st)))"
  by (cases flt) (auto simp: list_sessions_def selected_def Let_def intro!: arg_cong[where f="sort_key _"] filter_cong)

text \<open>
  C8 (as amended). \<open>list\<close> returns exactly the records its filter selects, each as
  often as the store holds it, ordered by \<open>last_active\<close> descending, and records with
  equal \<open>last_active\<close> keep their insertion order. With \<open>active_only = true\<close> these are
  the records with \<open>is_active\<close>; with a non-empty \<open>agent = X\<close> they are the records
  whose agent is \<open>X\<close>.
\<close>

theorem list_sessions_filtered_sorted:
  "mset (list_sessions flt st) = mset (filter (selected flt) (map snd (sessions st)))
   \<and> sorted_wrt (\<lambda>a b. last_active a \<ge> last_active b) (list_sessions flt st)
   \<and> (\<forall>t. filter (\<lambda>s. last_active s = t) (list_sessions flt st) =
           filter (\<lambda>s. last_active s = t) (filter (selected flt) (map snd (sessions st))))
   \<and> set (list_sessions (Some \<lparr>filter_agent = None, active_only = Some True\<rparr>) st) =
        {s \<in> set (map snd (sessions st)). is_active s}
   \<and> (X \<noteq> [] \<longrightarrow>
        set (list_sessions (Some \<lparr>filter_agent = Some X, active_only = None\<rparr>) st) =
          {s \<in> set (map snd (sessions st)). agent s = X})"
proof (intro conjI allI impI)
  show "mset (list_sessions flt st) = mset (filter (selected flt) (map snd (sessions st)))"
    by (simp add: list_sessions_eq)
next
  have "sorted (map (\<lambda>s. - last_active s) (list_sessions flt st))"
    unfolding list_sessions_eq by (rule sorted_sort_key)
  then show "sorted_wrt (\<lambda>a b. last_active a \<ge> last_active b) (list_sessions flt st)"
    by (simp add: sorted_map)
next
  fix t
  have "filter (\<lambda>s. - last_active s = - t) (list_sessions flt st) =
        filter (\<lambda>s. - last_active s = - t) (filter (selected flt) (map snd (sessions st)))"
    unfolding list_sessions_eq by (rule sort_key_stable)
  then show "filter (\<lambda>s. last_active s = t) (list_sessions flt st) =
           filter (\<lambda>s. last_active s = t) (filter (selected flt) (map snd (sessions st)))"
    by simp
next
  show "set (list_sessions (Some \<lparr>filter_agent = None, active_only = Some True\<rparr>) st) =
        {s \<in> set (map snd (sessions st)). is_active s}"
    by (auto simp: list_sessions_eq selected_def)
next
  assume "X \<noteq> []"
  then show "set (list_sessions (Some \<lparr>filter_agent = Some X, active_only = None\<rparr>) st) =
          {s \<in> set (map snd (sessions st)). agent s = X}"
    by (auto simp: list_sessions_eq selected_def)
qed

theorem list_sessions_filtered_sorted_witness:
  "''coder'' \<noteq> []
   \<and> set (list_sessions (Some \<lparr>filter_agent = Some ''coder'', active_only = None\<rparr>) example_store) =
       {s \<in> set (map snd (sessions example_store)). agent s = ''coder''}
   \<and> list_sessions (Some \<lparr>filter_agent = Some ''coder'', active_only = None\<rparr>) example_store =
       [\<lparr>session_id = ''s1'', agent = ''coder'', initial_task = ''fix it'',
         created_at = 10, last_active = 10, is_active = True\<rparr>]
   \<and> map session_id (list_sessions None example_store) = [''s1'', ''s2'']"
proof -
  have ne: "''coder'' \<noteq> []" by simp
  have a: "set (list_sessions (Some \<lparr>filter_agent = Some ''coder'', active_only = None\<rparr>) example_store) =
       {s \<in> set (map snd (sessions example_store)). agent s = ''coder''}"
    using list_sessions_filtered_sorted [of "Some \<lparr>filter_agent = Some ''coder'', active_only = None\<rparr>"
        example_store "''coder''"] ne by blast
  have b: "list_sessions (Some \<lparr>filter_agent = Some ''coder'', active_only = None\<rparr>) example_store =
       [\<lparr>session_id = ''s1'', agent = ''coder'', initial_task = ''fix it'',
         created_at = 10, last_active = 10, is_active = True\<rparr>]"
    by (simp add: list_sessions_def example_store_def save_def empty_store_def Let_def)
  have c: "map session_id (list_sessions None example_store) = [''s1'', ''s2'']"
    by (simp add: list_sessions_def example_store_def save_def empty_store_def Let_def)
  from ne a b c show ?thesis by blast
qed

text \<open>
  C8 as stated fails for the empty agent name: the filter \<open>agent = ''\<close> is falsy, so
  \<open>list\<close> applies no agent filter and returns a record whose agent is not the empty
  string.
\<close>

theorem empty_agent_filter_counterexample:
  "list_sessions (Some \<lparr>filter_agent = Some [], active_only = None\<rparr>)
     (save ''s1'' ''coder'' ''fix it'' None 10 empty_store) =
     [\<lparr>session_id = ''s1'', agent = ''coder'', initial_task = ''fix it'',
       created_at = 10, last_active = 10, is_active = False\<rparr>]"
  by (simp add: list_sessions_def save_def empty_store_def Let_def)

section \<open>Properties of the loop of \<open>runAgent\<close>\<close>

lemma processBlock_run_handlers:
  "processBlock (run_handlers params q now) b (rs, w) =
     (rs\<lparr>artifactList := artifactList rs @ artifact_paths [b]\<rparr>, w)"
proof (cases b)
  case (ToolUse n fp)
  then show ?thesis by (cases fp) (simp_all add: run_handlers_def)
next
  case OtherBlock
  then show ?thesis by simp
qed

lemma artifact_paths_Cons: "artifact_paths (b # bs) = artifact_paths [b] @ artifact_paths bs"
proof (cases b)
  case (ToolUse n fp)
  then show ?thesis by (cases fp) simp_all
next
  case OtherBlock
  then show ?thesis by simp
qed

lemma fold_processBlock:
  "fold (processBlock (run_handlers params q now)) bs (rs, w) =
     (rs\<lparr>artifactList := artifactList rs @ artifact_paths bs\<rparr>, w)"
proof (induction bs arbitrary: rs)
  case Nil
  then show ?case by simp
next
  case (Cons b bs)
  have "fold (processBlock (run_handlers params q now)) (b # bs) (rs, w) =
        fold (processBlock (run_handlers params q now)) bs
          (rs\<lparr>artifactList := artifactList rs @ artifact_paths [b]\<rparr>, w)"
    by (simp only: fold_simps processBlock_run_handlers)
  also have "\<dots> = (rs\<lparr>artifactList := artifactList rs @ artifact_paths [b] @ artifact_paths bs\<rparr>, w)"
    by (simp only: Cons.IH) simp
  finally show ?case by (simp only: artifact_paths_Cons[of b bs])
qed

lemma loop_body_eq:
  "loop_body params q (rs, w) (now, msg) = (next_state params msg rs, next_world params q now msg rs w)"
proof (cases msg)
  case (System subtype sid)
  then show ?thesis
    by (simp add: loop_body_def register_context_def run_handlers_def context_for_def Let_def)
next
  case (Result subtype res errs)
  then show ?thesis
    by (simp add: loop_body_def register_context_def run_handlers_def Let_def)
next
  case (Assistant content)
  then show ?thesis
    by (cases content) (simp_all add: loop_body_def register_context_def fold_processBlock)
next
  case OtherMessage
  then show ?thesis by (simp add: loop_body_def register_context_def)
qed

lemma foldl_loop_body_Cons:
  "foldl (loop_body params q) (rs, w) ((now, msg) # evs) =
     foldl (loop_body params q) (next_state params msg rs, next_world params q now msg rs w) evs"
  by (simp add: loop_body_eq)

text \<open>The local variables after the loop do not depend on the shared state.\<close>

lemma fst_foldl_loop_body:
  "fst (foldl (loop_body params q) (rs, w) evs) =
   foldl (\<lambda>rs ev. next_state params (snd ev) rs) rs evs"
proof (induction evs arbitrary: rs w)
  case Nil
  then show ?case by simp
next
  case (Cons ev evs)
  obtain now msg where ev: "ev = (now, msg)" by (cases ev)
  show ?case unfolding ev foldl_loop_body_Cons by (simp add: Cons.IH)
qed

lemma init_ids_Cons:
  "init_ids ((now, msg) # evs) = init_ids [(now, msg)] @ init_ids evs"
  by (cases msg) auto

lemma sessionId_foldl:
  "sessionId (fst (foldl (loop_body params q) (rs, w) evs)) = last (sessionId rs # init_ids evs)"
proof (induction evs arbitrary: rs w)
  case Nil
  then show ?case by simp
next
  case (Cons ev evs)
  obtain now msg where ev: "ev = (now, msg)" by (cases ev)
  have "sessionId (fst (foldl (loop_body params q) (rs, w) (ev # evs))) =
        last (sessionId (next_state params msg rs) # init_ids evs)"
    unfolding ev foldl_loop_body_Cons by (rule Cons.IH)
  also have "\<dots> = last (sessionId rs # init_ids ((now, msg) # evs))"
    by (cases msg) (auto split: option.splits)
  finally show ?case by (simp add: ev)
qed

lemma next_world_no_init:
  "init_ids [(now, msg)] = [] \<Longrightarrow> next_world params q now msg rs w = w"
  by (cases msg) (auto split: if_splits)

lemma snd_foldl_no_init:
  "init_ids evs = [] \<Longrightarrow> snd (foldl (loop_body params q) (rs, w) evs) = w"
proof (induction evs arbitrary: rs w)
  case Nil
  then show ?case by simp
next
  case (Cons ev evs)
  obtain now msg where ev: "ev = (now, msg)" by (cases ev)
  from Cons.prems have a: "init_ids [(now, msg)] = []" and b: "init_ids evs = []"
    using init_ids_Cons[of now msg evs] by (simp_all add: ev)
  show ?case unfolding ev foldl_loop_body_Cons
    by (simp add: next_world_no_init[OF a] Cons.IH[OF b])
qed


lemma engine_calls_next_world: "engine_calls (next_world params q now msg rs w) = engine_calls w"
  by (cases msg) auto


lemma engine_calls_foldl:
  "engine_calls (snd (foldl (loop_body params q) (rs, w) evs)) = engine_calls w"
proof (induction evs arbitrary: rs w)
  case Nil
  then show ?case by simp
next
  case (Cons ev evs)
  obtain now msg where ev: "ev = (now, msg)" by (cases ev)
  show ?case unfolding ev foldl_loop_body_Cons
    by (simp add: Cons.IH engine_calls_next_world)
qed


lemma engine_calls_cleanup: "engine_calls (cleanup sid now w) = engine_calls w"
  by (simp add: cleanup_def)

lemma runAgent_try_eq:
  "runAgent_try params ctx run w =
     (Inr (case thrown run of
             None \<Rightarrow> returned_result (fst (foldl (loop_body params (handle run))
                (initial_state ctx, w\<lparr>engine_calls := engine_calls w @ [engine_call_of params]\<rparr>) (events run)))
           | Some errMsg \<Rightarrow> caught_result (fst (foldl (loop_body params (handle run))
                (initial_state ctx, w\<lparr>engine_calls := engine_calls w @ [engine_call_of params]\<rparr>) (events run))) errMsg),
      cleanup (sessionId (fst (foldl (loop_body params (handle run))
                (initial_state ctx, w\<lparr>engine_calls := engine_calls w @ [engine_call_of params]\<rparr>) (events run))))
       (finished_at run)
       (snd (foldl (loop_body params (handle run))
                (initial_state ctx, w\<lparr>engine_calls := engine_calls w @ [engine_call_of params]\<rparr>) (events run))))"
  by (simp add: runAgent_try_def split: prod.splits option.splits)


lemma engine_calls_runAgent_try:
  "engine_calls (snd (runAgent_try params ctx run w)) = engine_calls w @ [engine_call_of params]"
  by (simp add: runAgent_try_eq engine_calls_cleanup engine_calls_foldl)

lemma runAgent_try_returns: "\<exists>r. fst (runAgent_try params ctx run w) = Inr r"
  by (simp add: runAgent_try_eq)

lemma runAgent_agent_missing:
  "registry_getOrThrow reg (p_agent params) = Inl e \<Longrightarrow> runAgent reg params ctx run w = (Inl e, w)"
  by (simp add: runAgent_def)

lemma registry_getOrThrow_found:
  "map_of reg a = Some cfg \<Longrightarrow> registry_getOrThrow reg a = Inr cfg"
  by (simp add: registry_getOrThrow_def)

lemma runAgent_fresh:
  "map_of reg (p_agent params) = Some cfg \<Longrightarrow> \<not> truthy (resume params) \<Longrightarrow>
   runAgent reg params ctx run w = runAgent_try params ctx run w"
  by (simp add: runAgent_def registry_getOrThrow_found)

lemma runAgent_resume:
  "map_of reg (p_agent params) = Some cfg \<Longrightarrow> resume params = Some r \<Longrightarrow> r \<noteq> [] \<Longrightarrow>
   runAgent reg params ctx run w =
     (if \<not> has (store w) r then
        (Inl (AgentError (''Session not found: '' @ r) SESSION_NOT_FOUND (SessionDetails r)), w)
      else if isActive (store w) r then
        (Inl (AgentError (''Session '' @ r @ '' is already active. Use cancel_agent first.'')
               SESSION_ALREADY_ACTIVE (SessionDetails r)), w)
      else runAgent_try params ctx run w)"
  by (simp add: runAgent_def registry_getOrThrow_found)



section \<open>Properties of \<open>runAgent\<close> and of the delegation handler\<close>

lemma runAgent_preconditions_hold:
  "preconditions_hold reg params w \<Longrightarrow> runAgent reg params ctx run w = runAgent_try params ctx run w"
  by (cases "resume params")
     (auto simp: preconditions_hold_def runAgent_fresh runAgent_resume split: if_splits)

lemma runAgent_Inl_world:
  "fst (runAgent reg params ctx run w) = Inl e \<Longrightarrow> snd (runAgent reg params ctx run w) = w"
proof (cases "registry_getOrThrow reg (p_agent params)")
  case (Inl e')
  then show ?thesis by (simp add: runAgent_agent_missing)
next
  case (Inr cfg)
  assume a: "fst (runAgent reg params ctx run w) = Inl e"
  from Inr have m: "map_of reg (p_agent params) = Some cfg"
    by (auto simp: registry_getOrThrow_def split: option.splits)
  obtain r where r: "fst (runAgent_try params ctx run w) = Inr r"
    using runAgent_try_returns by blast
  show ?thesis
  proof (cases "truthy (resume params)")
    case False
    with a m r show ?thesis by (simp add: runAgent_fresh)
  next
    case True
    then obtain rid where "resume params = Some rid" "rid \<noteq> []"
      by (cases "resume params") auto
    with a m r show ?thesis
      by (auto simp: runAgent_resume split: if_splits)
  qed
qed

lemma has_iff_key: "has st k \<longleftrightarrow> k \<in> fst ` set (sessions st)"
  by (simp add: has_def map_of_eq_None_iff)

lemma keys_map_entry: "fst ` set (AList.map_entry k f al) = fst ` set al"
  by (induction al) auto

lemma keys_save:
  "fst ` set (sessions (save sid a t q now st)) = insert sid (fst ` set (sessions st))"
  by (cases q) (simp_all add: save_def Let_def AList.dom_update)

lemma keys_complete: "fst ` set (sessions (complete sid now st)) = fst ` set (sessions st)"
  by (simp add: complete_def keys_map_entry)

lemma keys_cleanup:
  "fst ` set (sessions (store (cleanup sid now w))) = fst ` set (sessions (store w))"
  by (simp add: cleanup_def keys_complete)

lemma keys_next_world:
  "fst ` set (sessions (store (next_world params q now msg rs w))) =
     fst ` set (sessions (store w)) \<union> set (init_ids [(now, msg)])"
  by (cases msg) (auto simp: keys_save)

lemma keys_foldl:
  "fst ` set (sessions (store (snd (foldl (loop_body params q) (rs, w) evs)))) =
     fst ` set (sessions (store w)) \<union> set (init_ids evs)"
proof (induction evs arbitrary: rs w)
  case Nil
  then show ?case by simp
next
  case (Cons ev evs)
  obtain now msg where ev: "ev = (now, msg)" by (cases ev)
  have "fst ` set (sessions (store (snd (foldl (loop_body params q) (rs, w) (ev # evs))))) =
        fst ` set (sessions (store (next_world params q now msg rs w))) \<union> set (init_ids evs)"
    unfolding ev foldl_loop_body_Cons by (rule Cons.IH)
  also have "\<dots> = fst ` set (sessions (store w)) \<union> set (init_ids ((now, msg) # evs))"
    by (simp only: keys_next_world init_ids_Cons[of now msg evs] set_append Un_assoc)
  finally show ?case by (simp only: ev)
qed

lemma keys_runAgent_try:
  "fst ` set (sessions (store (snd (runAgent_try params ctx run w)))) =
     fst ` set (sessions (store w)) \<union> set (init_ids (events run))"
  by (simp add: runAgent_try_eq keys_cleanup keys_foldl)

lemma has_after_runAgent:
  assumes "has (store (snd (runAgent reg params ctx run w))) k"
  shows "has (store w) k \<or> k \<in> set (init_ids (events run))"
proof (cases "fst (runAgent reg params ctx run w)")
  case (Inl e)
  then show ?thesis using assms by (simp add: runAgent_Inl_world)
next
  case (Inr r)
  have "runAgent reg params ctx run w = runAgent_try params ctx run w"
  proof (cases "preconditions_hold reg params w")
    case True
    then show ?thesis by (rule runAgent_preconditions_hold)
  next
    case False
    have "\<exists>e. fst (runAgent reg params ctx run w) = Inl e"
    proof (cases "map_of reg (p_agent params)")
      case None
      then show ?thesis by (simp add: runAgent_def registry_getOrThrow_def)
    next
      case (Some cfg)
      with False obtain rid where "resume params = Some rid" "rid \<noteq> []"
        "\<not> (has (store w) rid \<and> \<not> isActive (store w) rid)"
        by (auto simp: preconditions_hold_def split: option.splits if_splits)
      with Some show ?thesis by (auto simp: runAgent_resume)
    qed
    with Inr show ?thesis by simp
  qed
  with assms show ?thesis by (simp add: has_iff_key keys_runAgent_try)
qed

text \<open>
  C10 (as amended). When the checks pass and the stream throws before any
  session-established message, \<open>runAgent\<close> returns \<open>success = false\<close> with the session
  id \<open>unknown\<close>, and the only change of state is the recorded engine call: the session
  store and the context table are as before. A batch task whose \<open>runAgent\<close> call
  throws, as it does for an agent that does not resolve, is reported with the session
  id \<open>failed\<close> and leaves the state unchanged. After any \<open>runAgent\<close> call the store holds
  a session id only if it held it before or the engine issued it in a
  session-established message of that run, and resuming an id the store does not hold
  raises \<open>SESSION_NOT_FOUND\<close>: a sentinel is resumable only when the engine itself has
  issued that string as a session id.
\<close>

theorem sentinel_session_ids:
  "(preconditions_hold reg params w \<and> init_ids (events run) = [] \<and> thrown run = Some errMsg \<longrightarrow>
      runAgent reg params ctx run w =
        (Inr \<lparr>success = False, result_session_id = ''unknown'',
              summary = ''Agent execution failed: '' @ errMsg, artifacts = None,
              error = Some errMsg\<rparr>,
         w\<lparr>engine_calls := engine_calls w @ [engine_call_of params]\<rparr>))
   \<and> (fst (runAgent reg \<lparr>p_agent = b_agent task, p_task = b_task task, resume = None, fork = None\<rparr>
              None (task_run env) w) = Inl e \<longrightarrow>
        snd (run_task reg env i task w) = w
      \<and> \<not> success (fst (run_task reg env i task w))
      \<and> result_session_id (fst (run_task reg env i task w)) = ''failed''
      \<and> error (fst (run_task reg env i task w)) = Some (message e))
   \<and> (map_of reg (b_agent task) = None \<longrightarrow>
        snd (run_task reg env i task w) = w
      \<and> result_session_id (fst (run_task reg env i task w)) = ''failed'')
   \<and> (has (store (snd (runAgent reg params ctx run w))) k \<longrightarrow>
        has (store w) k \<or> k \<in> set (init_ids (events run)))
   \<and> (map_of reg (p_agent params) \<noteq> None \<and> resume params = Some k \<and> k \<noteq> [] \<and>
       \<not> has (store w) k \<longrightarrow>
        runAgent reg params ctx run w =
          (Inl (AgentError (''Session not found: '' @ k) SESSION_NOT_FOUND (SessionDetails k)), w))"
proof (intro conjI impI)
  assume h: "preconditions_hold reg params w \<and> init_ids (events run) = [] \<and> thrown run = Some errMsg"
  then have ni: "init_ids (events run) = []" and th: "thrown run = Some errMsg" by simp_all
  have sid: "sessionId (fst (foldl (loop_body params (handle run))
                (initial_state ctx, w\<lparr>engine_calls := engine_calls w @ [engine_call_of params]\<rparr>) (events run))) = []"
    by (simp add: sessionId_foldl ni initial_state_def)
  have wd: "snd (foldl (loop_body params (handle run))
                (initial_state ctx, w\<lparr>engine_calls := engine_calls w @ [engine_call_of params]\<rparr>) (events run))
            = w\<lparr>engine_calls := engine_calls w @ [engine_call_of params]\<rparr>"
    by (rule snd_foldl_no_init[OF ni])
  have "runAgent_try params ctx run w =
        (Inr \<lparr>success = False, result_session_id = ''unknown'',
              summary = ''Agent execution failed: '' @ errMsg, artifacts = None,
              error = Some errMsg\<rparr>,
         w\<lparr>engine_calls := engine_calls w @ [engine_call_of params]\<rparr>)"
    by (simp add: runAgent_try_eq th sid wd caught_result_def cleanup_def)
  with h show "runAgent reg params ctx run w =
        (Inr \<lparr>success = False, result_session_id = ''unknown'',
              summary = ''Agent execution failed: '' @ errMsg, artifacts = None,
              error = Some errMsg\<rparr>,
         w\<lparr>engine_calls := engine_calls w @ [engine_call_of params]\<rparr>)"
    by (simp add: runAgent_preconditions_hold)
next
  assume a: "fst (runAgent reg \<lparr>p_agent = b_agent task, p_task = b_task task, resume = None, fork = None\<rparr>
              None (task_run env) w) = Inl e"
  then have b: "runAgent reg \<lparr>p_agent = b_agent task, p_task = b_task task, resume = None, fork = None\<rparr>
              None (task_run env) w = (Inl e, w)"
    using runAgent_Inl_world[OF a] by (simp add: prod_eq_iff)
  show "snd (run_task reg env i task w) = w"
    by (simp add: run_task_def b)
  show "\<not> success (fst (run_task reg env i task w))"
    by (simp add: run_task_def b)
  show "result_session_id (fst (run_task reg env i task w)) = ''failed''"
    by (simp add: run_task_def b)
  show "error (fst (run_task reg env i task w)) = Some (message e)"
    by (simp add: run_task_def b)
next
  assume a: "map_of reg (b_agent task) = None"
  then obtain e where b: "runAgent reg \<lparr>p_agent = b_agent task, p_task = b_task task, resume = None, fork = None\<rparr>
              None (task_run env) w = (Inl e, w)"
    by (simp add: runAgent_def registry_getOrThrow_def)
  show "snd (run_task reg env i task w) = w"
    by (simp add: run_task_def b)
  show "result_session_id (fst (run_task reg env i task w)) = ''failed''"
    by (simp add: run_task_def b)
next
  assume "has (store (snd (runAgent reg params ctx run w))) k"
  then show "has (store w) k \<or> k \<in> set (init_ids (events run))"
    by (rule has_after_runAgent)
next
  assume h: "map_of reg (p_agent params) \<noteq> None \<and> resume params = Some k \<and> k \<noteq> [] \<and>
       \<not> has (store w) k"
  then obtain cfg where cfg: "map_of reg (p_agent params) = Some cfg" by auto
  from h have res: "resume params = Some k" and kne: "k \<noteq> []" and nh: "\<not> has (store w) k"
    by simp_all
  show "runAgent reg params ctx run w =
          (Inl (AgentError (''Session not found: '' @ k) SESSION_NOT_FOUND (SessionDetails k)), w)"
    unfolding runAgent_resume[OF cfg res kne] using nh by (rule if_P)
qed

theorem sentinel_session_ids_witness:
  "preconditions_hold example_registry example_params empty_world
   \<and> init_ids (events example_failed_run) = []
   \<and> thrown example_failed_run = Some ''engine crashed''
   \<and> runAgent example_registry example_params None example_failed_run empty_world =
        (Inr \<lparr>success = False, result_session_id = ''unknown'',
              summary = ''Agent execution failed: '' @ ''engine crashed'', artifacts = None,
              error = Some ''engine crashed''\<rparr>,
         empty_world\<lparr>engine_calls := engine_calls empty_world @ [engine_call_of example_params]\<rparr>)
   \<and> map_of example_registry (b_agent example_bad_task) = None
   \<and> snd (run_task example_registry (example_env 0) 0 example_bad_task empty_world) = empty_world
   \<and> result_session_id (fst (run_task example_registry (example_env 0) 0 example_bad_task empty_world)) = ''failed''
   \<and> \<not> has (store empty_world) ''unknown''
   \<and> runAgent example_registry example_unknown_resume None example_run empty_world =
        (Inl (AgentError (''Session not found: '' @ ''unknown'') SESSION_NOT_FOUND
               (SessionDetails ''unknown'')), empty_world)"
proof -
  have p: "preconditions_hold example_registry example_params empty_world"
    by (simp add: preconditions_hold_def example_registry_def example_params_def)
  have i: "init_ids (events example_failed_run) = []"
    by (simp add: example_failed_run_def)
  have t: "thrown example_failed_run = Some ''engine crashed''"
    by (simp add: example_failed_run_def)
  have m: "map_of example_registry (b_agent example_bad_task) = None"
    by (simp add: example_registry_def example_bad_task_def)
  have ag: "map_of example_registry (p_agent example_unknown_resume) \<noteq> None"
    by (simp add: example_registry_def example_unknown_resume_def)
  have res: "resume example_unknown_resume = Some ''unknown''"
    by (simp add: example_unknown_resume_def)
  have kne: "''unknown'' \<noteq> []" by simp
  have nh: "\<not> has (store empty_world) ''unknown''"
    by (simp add: has_def empty_world_def empty_store_def)
  note th = sentinel_session_ids [where reg = example_registry and params = example_params
      and w = empty_world and run = example_failed_run and errMsg = "''engine crashed''"
      and ctx = None and task = example_bad_task and env = "example_env 0" and i = 0]
  have a: "runAgent example_registry example_params None example_failed_run empty_world =
        (Inr \<lparr>success = False, result_session_id = ''unknown'',
              summary = ''Agent execution failed: '' @ ''engine crashed'', artifacts = None,
              error = Some ''engine crashed''\<rparr>,
         empty_world\<lparr>engine_calls := engine_calls empty_world @ [engine_call_of example_params]\<rparr>)"
    by (rule th[THEN conjunct1, THEN mp, OF conjI[OF p conjI[OF i t]]])
  note b = th[THEN conjunct2, THEN conjunct2, THEN conjunct1, THEN mp, OF m]
  note th2 = sentinel_session_ids [where reg = example_registry and params = example_unknown_resume
      and w = empty_world and run = example_run and ctx = None and k = "''unknown''"]
  have c: "runAgent example_registry example_unknown_resume None example_run empty_world =
        (Inl (AgentError (''Session not found: '' @ ''unknown'') SESSION_NOT_FOUND
               (SessionDetails ''unknown'')), empty_world)"
    by (rule th2[THEN conjunct2, THEN conjunct2, THEN conjunct2, THEN conjunct2, THEN mp,
          OF conjI[OF ag conjI[OF res conjI[OF kne nh]]]])
  note b1 = b[THEN conjunct1] and b2 = b[THEN conjunct2]
  from p i t a m b1 b2 nh c show ?thesis by (intro conjI)
qed

text \<open>
  C10 as stated fails in its last clause: when the engine establishes a session under
  the id \<open>unknown\<close>, the store records it like any other id, and a later call that
  resumes \<open>unknown\<close> passes the checks and runs.
\<close>

theorem engine_issued_sentinel_counterexample:
  "store (snd (runAgent example_registry example_params None example_unknown_run empty_world)) =
     \<lparr>sessions = [(''unknown'', \<lparr>session_id = ''unknown'', agent = ''coder'',
                     initial_task = ''fix it'', created_at = 10, last_active = 12,
                     is_active = False\<rparr>)],
      activeQueries = [], interrupted = []\<rparr>
   \<and> has (store (snd (runAgent example_registry example_params None example_unknown_run empty_world)))
        ''unknown''
   \<and> fst (runAgent example_registry example_unknown_resume None example_unknown_run
        (snd (runAgent example_registry example_params None example_unknown_run empty_world))) =
       Inr \<lparr>success = True, result_session_id = ''unknown'', summary = ''done'',
            artifacts = None, error = None\<rparr>"
proof -
  let ?w1 = "snd (runAgent example_registry example_params None example_unknown_run empty_world)"
  have cfg: "map_of example_registry (p_agent example_params) =
             Some \<lparr>name = ''coder'', description = ''writes code'',
                   systemPrompt = ''You write code.'', model = None\<rparr>"
    by (simp add: example_registry_def example_params_def)
  have fresh: "\<not> truthy (resume example_params)" by (simp add: example_params_def)
  have st: "store ?w1 =
     \<lparr>sessions = [(''unknown'', \<lparr>session_id = ''unknown'', agent = ''coder'',
                     initial_task = ''fix it'', created_at = 10, last_active = 12,
                     is_active = False\<rparr>)],
      activeQueries = [], interrupted = []\<rparr>"
    unfolding runAgent_fresh[OF cfg fresh]
    by (simp add: runAgent_try_eq loop_body_eq example_unknown_run_def initial_state_def
          cleanup_def save_def complete_def empty_world_def empty_store_def example_params_def
          Let_def)
  have hs: "has (store ?w1) ''unknown''" unfolding st by (simp add: has_def)
  have na: "\<not> isActive (store ?w1) ''unknown''" unfolding st by (simp add: isActive_def)
  have cfg2: "map_of example_registry (p_agent example_unknown_resume) =
             Some \<lparr>name = ''coder'', description = ''writes code'',
                   systemPrompt = ''You write code.'', model = None\<rparr>"
    by (simp add: example_registry_def example_unknown_resume_def)
  have res: "resume example_unknown_resume = Some ''unknown''"
    by (simp add: example_unknown_resume_def)
  have kne: "''unknown'' \<noteq> []" by simp
  have "runAgent example_registry example_unknown_resume None example_unknown_run ?w1 =
        runAgent_try example_unknown_resume None example_unknown_run ?w1"
    unfolding runAgent_resume[OF cfg2 res kne] using hs na by simp
  moreover have "fst (runAgent_try example_unknown_resume None example_unknown_run ?w1) =
       Inr \<lparr>success = True, result_session_id = ''unknown'', summary = ''done'',
            artifacts = None, error = None\<rparr>"
    by (simp add: runAgent_try_eq loop_body_eq example_unknown_run_def initial_state_def
          returned_result_def)
  ultimately have r: "fst (runAgent example_registry example_unknown_resume None example_unknown_run ?w1) =
       Inr \<lparr>success = True, result_session_id = ''unknown'', summary = ''done'',
            artifacts = None, error = None\<rparr>" by simp
  from st hs r show ?thesis by (intro conjI)
qed







lemma record_save_other:
  "sid \<noteq> r \<Longrightarrow> map_of (sessions (save sid a t q now st)) r = map_of (sessions st) r"
  by (cases q) (simp_all add: save_def Let_def AList.update_conv')

lemma record_save_same:
  "map_of (sessions st) r = Some s \<Longrightarrow>
   map_of (sessions (save r a t q now st)) r =
     Some \<lparr>session_id = r, agent = a, initial_task = initial_task s, created_at = created_at s,
           last_active = now, is_active = (q \<noteq> None)\<rparr>"
  by (cases q) (simp_all add: save_def Let_def AList.update_conv')

lemma record_next_world:
  assumes "map_of (sessions (store w)) r = Some s"
  shows "\<exists>s'. map_of (sessions (store (next_world params q now msg rs w))) r = Some s'
             \<and> initial_task s' = initial_task s \<and> created_at s' = created_at s"
proof (cases msg)
  case (System subtype sid)
  show ?thesis
  proof (cases "subtype = ''init''")
    case True
    show ?thesis
    proof (cases "sid = r")
      case True
      with \<open>subtype = ''init''\<close> System assms show ?thesis
        by (simp add: record_save_same)
    next
      case False
      with \<open>subtype = ''init''\<close> System assms show ?thesis
        by (simp add: record_save_other)
    qed
  next
    case False
    with System assms show ?thesis by simp
  qed
qed (use assms in simp_all)

lemma record_foldl:
  assumes "map_of (sessions (store w)) r = Some s"
  shows "\<exists>s'. map_of (sessions (store (snd (foldl (loop_body params q) (rs, w) evs)))) r = Some s'
             \<and> initial_task s' = initial_task s \<and> created_at s' = created_at s"
  using assms
proof (induction evs arbitrary: rs w s)
  case Nil
  then show ?case by simp
next
  case (Cons ev evs)
  obtain now msg where ev: "ev = (now, msg)" by (cases ev)
  obtain s1 where s1: "map_of (sessions (store (next_world params q now msg rs w))) r = Some s1"
      "initial_task s1 = initial_task s" "created_at s1 = created_at s"
    using record_next_world[OF Cons.prems] by blast
  from Cons.IH[OF s1(1)] s1(2,3) show ?case
    unfolding ev foldl_loop_body_Cons by simp
qed

lemma record_cleanup_same:
  "r \<noteq> [] \<Longrightarrow>
   map_of (sessions (store (cleanup r now w))) r =
     map_option (\<lambda>s. s\<lparr>is_active := False, last_active := now\<rparr>) (map_of (sessions (store w)) r)"
  by (simp add: cleanup_def complete_def map_of_map_entry_same)

lemma runAgent_resume_inactive:
  assumes ag: "map_of reg (p_agent params) \<noteq> None"
    and res: "resume params = Some r" and rne: "r \<noteq> []"
    and g: "get (store w) r = Some s" and inact: "\<not> is_active s"
    and ids: "set (init_ids (events run)) = {r}"
  shows "\<exists>res. fst (runAgent reg params ctx run w) = Inr res"
    and "engine_calls (snd (runAgent reg params ctx run w)) =
          engine_calls w @
            [\<lparr>prompt = p_task params @ output_requirements, opt_resume = Some r,
              opt_forkSession = (if fork params = Some True then Some True else None)\<rparr>]"
    and "\<exists>s'. get (store (snd (runAgent reg params ctx run w))) r = Some s'
             \<and> initial_task s' = initial_task s \<and> created_at s' = created_at s
             \<and> last_active s' = finished_at run \<and> \<not> is_active s'"
proof -
  from g have rec: "map_of (sessions (store w)) r = Some s" by (simp add: get_def)
  have "has (store w) r" using rec by (simp add: has_def)
  moreover have "\<not> isActive (store w) r" using rec inact by (simp add: isActive_def)
  ultimately have pre: "preconditions_hold reg params w"
    using res ag rne by (simp add: preconditions_hold_def)
  have eq: "runAgent reg params ctx run w = runAgent_try params ctx run w"
    by (rule runAgent_preconditions_hold[OF pre])
  let ?w1 = "w\<lparr>engine_calls := engine_calls w @ [engine_call_of params]\<rparr>"
  let ?final = "foldl (loop_body params (handle run)) (initial_state ctx, ?w1) (events run)"
  show "\<exists>res. fst (runAgent reg params ctx run w) = Inr res"
    unfolding eq by (rule runAgent_try_returns)
  have "engine_call_of params = \<lparr>prompt = p_task params @ output_requirements, opt_resume = Some r,
              opt_forkSession = (if fork params = Some True then Some True else None)\<rparr>"
    using res rne by (simp add: engine_call_of_def)
  then show "engine_calls (snd (runAgent reg params ctx run w)) =
          engine_calls w @
            [\<lparr>prompt = p_task params @ output_requirements, opt_resume = Some r,
              opt_forkSession = (if fork params = Some True then Some True else None)\<rparr>]"
    unfolding eq by (simp only: engine_calls_runAgent_try)
  have ne: "init_ids (events run) \<noteq> []"
  proof
    assume "init_ids (events run) = []"
    with ids show False by simp
  qed
  have "sessionId (fst ?final) = last (init_ids (events run))"
    using ne by (simp add: sessionId_foldl)
  also have "\<dots> \<in> set (init_ids (events run))" using ne by (rule last_in_set)
  finally have sid: "sessionId (fst ?final) = r" using ids by simp
  have "map_of (sessions (store ?w1)) r = Some s" using rec by simp
  from record_foldl[OF this, of params "handle run" "initial_state ctx" "events run"]
  obtain s1 where s1: "map_of (sessions (store (snd ?final))) r = Some s1"
      "initial_task s1 = initial_task s" "created_at s1 = created_at s"
    by (elim exE conjE)
  have sw: "snd (runAgent_try params ctx run w) = cleanup r (finished_at run) (snd ?final)"
    by (simp only: runAgent_try_eq snd_conv sid)
  have "get (store (snd (runAgent_try params ctx run w))) r =
        Some (s1\<lparr>is_active := False, last_active := finished_at run\<rparr>)"
    by (simp only: sw get_def record_cleanup_same[OF rne] s1(1) option.map)
  then show "\<exists>s'. get (store (snd (runAgent reg params ctx run w))) r = Some s'
             \<and> initial_task s' = initial_task s \<and> created_at s' = created_at s
             \<and> last_active s' = finished_at run \<and> \<not> is_active s'"
    unfolding eq using s1(2,3) by simp
qed


text \<open>
  C6 (as amended). For a \<open>runAgent\<close> call whose agent resolves and whose resume id is
  not empty: an id the store does not hold raises \<open>SESSION_NOT_FOUND\<close>, an id of an
  active session raises \<open>SESSION_ALREADY_ACTIVE\<close>, both with the state unchanged (no
  engine call, whatever the engine would do). For an inactive session the engine is
  called with the resume id and the call returns; when the engine establishes the
  run under the resumed id, the record afterwards keeps its \<open>initial_task\<close> and
  \<open>created_at\<close>, has \<open>last_active\<close> set to the time of the cleanup and is inactive.
\<close>

theorem runAgent_resume_checks:
  "(map_of reg (p_agent params) \<noteq> None \<and> resume params = Some r \<and> r \<noteq> [] \<and> \<not> has (store w) r \<longrightarrow>
      runAgent reg params ctx run w =
        (Inl (AgentError (''Session not found: '' @ r) SESSION_NOT_FOUND (SessionDetails r)), w))
   \<and> (map_of reg (p_agent params) \<noteq> None \<and> resume params = Some r \<and> r \<noteq> [] \<and>
       has (store w) r \<and> isActive (store w) r \<longrightarrow>
      runAgent reg params ctx run w =
        (Inl (AgentError (''Session '' @ r @ '' is already active. Use cancel_agent first.'')
               SESSION_ALREADY_ACTIVE (SessionDetails r)), w))
   \<and> (map_of reg (p_agent params) \<noteq> None \<and> resume params = Some r \<and> r \<noteq> [] \<and>
       get (store w) r = Some s \<and> \<not> is_active s \<and> set (init_ids (events run)) = {r} \<longrightarrow>
      (\<exists>res. fst (runAgent reg params ctx run w) = Inr res)
      \<and> engine_calls (snd (runAgent reg params ctx run w)) =
          engine_calls w @
            [\<lparr>prompt = p_task params @ output_requirements, opt_resume = Some r,
              opt_forkSession = (if fork params = Some True then Some True else None)\<rparr>]
      \<and> (\<exists>s'. get (store (snd (runAgent reg params ctx run w))) r = Some s'
             \<and> initial_task s' = initial_task s \<and> created_at s' = created_at s
             \<and> last_active s' = finished_at run \<and> \<not> is_active s'))"
proof (intro conjI impI)
  assume h: "map_of reg (p_agent params) \<noteq> None \<and> resume params = Some r \<and> r \<noteq> [] \<and> \<not> has (store w) r"
  then obtain cfg where cfg: "map_of reg (p_agent params) = Some cfg" by auto
  from h have res: "resume params = Some r" and rne: "r \<noteq> []" and nh: "\<not> has (store w) r"
    by simp_all
  show "runAgent reg params ctx run w =
        (Inl (AgentError (''Session not found: '' @ r) SESSION_NOT_FOUND (SessionDetails r)), w)"
    unfolding runAgent_resume[OF cfg res rne] using nh by (rule if_P)
next
  assume h: "map_of reg (p_agent params) \<noteq> None \<and> resume params = Some r \<and> r \<noteq> [] \<and>
       has (store w) r \<and> isActive (store w) r"
  then obtain cfg where cfg: "map_of reg (p_agent params) = Some cfg" by auto
  from h have res: "resume params = Some r" and rne: "r \<noteq> []" and hs: "has (store w) r"
    and ac: "isActive (store w) r"
    by simp_all
  show "runAgent reg params ctx run w =
        (Inl (AgentError (''Session '' @ r @ '' is already active. Use cancel_agent first.'')
               SESSION_ALREADY_ACTIVE (SessionDetails r)), w)"
    unfolding runAgent_resume[OF cfg res rne] using hs ac
    by (simp only: not_True_eq_False if_False if_True)
next
  assume h: "map_of reg (p_agent params) \<noteq> None \<and> resume params = Some r \<and> r \<noteq> [] \<and>
       get (store w) r = Some s \<and> \<not> is_active s \<and> set (init_ids (events run)) = {r}"
  then have ag: "map_of reg (p_agent params) \<noteq> None"
    and res: "resume params = Some r" and rne: "r \<noteq> []"
    and g: "get (store w) r = Some s" and inact: "\<not> is_active s"
    and ids: "set (init_ids (events run)) = {r}"
    by simp_all
  show "\<exists>res. fst (runAgent reg params ctx run w) = Inr res"
    by (rule runAgent_resume_inactive(1)[OF ag res rne g inact ids])
  show "engine_calls (snd (runAgent reg params ctx run w)) =
          engine_calls w @
            [\<lparr>prompt = p_task params @ output_requirements, opt_resume = Some r,
              opt_forkSession = (if fork params = Some True then Some True else None)\<rparr>]"
    by (rule runAgent_resume_inactive(2)[OF ag res rne g inact ids])
  show "\<exists>s'. get (store (snd (runAgent reg params ctx run w))) r = Some s'
             \<and> initial_task s' = initial_task s \<and> created_at s' = created_at s
             \<and> last_active s' = finished_at run \<and> \<not> is_active s'"
    by (rule runAgent_resume_inactive(3)[OF ag res rne g inact ids])
qed

theorem runAgent_resume_checks_witness:
  "runAgent example_registry example_resume_params None example_resume_run empty_world =
     (Inl (AgentError (''Session not found: '' @ ''s1'') SESSION_NOT_FOUND (SessionDetails ''s1'')),
      empty_world)
   \<and> runAgent example_registry example_resume_params None example_resume_run example_busy_world =
     (Inl (AgentError (''Session '' @ ''s1'' @ '' is already active. Use cancel_agent first.'')
            SESSION_ALREADY_ACTIVE (SessionDetails ''s1'')),
      example_busy_world)
   \<and> get (store example_idle_world) ''s1'' = Some example_idle_session
   \<and> (\<exists>s'. get (store (snd (runAgent example_registry example_resume_params None example_resume_run
                example_idle_world))) ''s1'' = Some s'
         \<and> initial_task s' = initial_task example_idle_session
         \<and> created_at s' = created_at example_idle_session
         \<and> last_active s' = finished_at example_resume_run \<and> \<not> is_active s')"
proof -
  have ag: "map_of example_registry (p_agent example_resume_params) \<noteq> None"
    by (simp add: example_registry_def example_resume_params_def)
  have res: "resume example_resume_params = Some ''s1''"
    by (simp add: example_resume_params_def)
  have rne: "''s1'' \<noteq> []" by simp
  have nh: "\<not> has (store empty_world) ''s1''"
    by (simp add: has_def empty_world_def empty_store_def)
  have hb: "has (store example_busy_world) ''s1''"
    by (simp add: has_def example_busy_world_def save_def empty_store_def)
  have ab: "isActive (store example_busy_world) ''s1''"
    by (simp add: isActive_def example_busy_world_def save_def empty_store_def)
  have g: "get (store example_idle_world) ''s1'' = Some example_idle_session"
    by (simp add: get_def example_idle_world_def example_idle_session_def complete_def save_def
          empty_store_def)
  have na: "\<not> is_active example_idle_session"
    by (simp add: example_idle_session_def)
  have ids: "set (init_ids (events example_resume_run)) = {''s1''}"
    by (simp add: example_resume_run_def)
  have a: "runAgent example_registry example_resume_params None example_resume_run empty_world =
     (Inl (AgentError (''Session not found: '' @ ''s1'') SESSION_NOT_FOUND (SessionDetails ''s1'')),
      empty_world)"
    using runAgent_resume_checks [where reg = example_registry and params = example_resume_params
        and r = "''s1''" and w = empty_world and ctx = None and run = example_resume_run]
      ag res rne nh by simp
  have b: "runAgent example_registry example_resume_params None example_resume_run example_busy_world =
     (Inl (AgentError (''Session '' @ ''s1'' @ '' is already active. Use cancel_agent first.'')
            SESSION_ALREADY_ACTIVE (SessionDetails ''s1'')),
      example_busy_world)"
    using runAgent_resume_checks [where reg = example_registry and params = example_resume_params
        and r = "''s1''" and w = example_busy_world and ctx = None and run = example_resume_run]
      ag res rne hb ab by simp
  have c: "\<exists>s'. get (store (snd (runAgent example_registry example_resume_params None example_resume_run
                example_idle_world))) ''s1'' = Some s'
         \<and> initial_task s' = initial_task example_idle_session
         \<and> created_at s' = created_at example_idle_session
         \<and> last_active s' = finished_at example_resume_run \<and> \<not> is_active s'"
    using runAgent_resume_checks [where reg = example_registry and params = example_resume_params
        and r = "''s1''" and w = example_idle_world and ctx = None and run = example_resume_run
        and s = example_idle_session]
      ag res rne g na ids by simp
  from a b g c show ?thesis by (intro conjI)
qed

text \<open>
  C6 as stated fails in two cases. With an agent that does not resolve, a resume id
  absent from the store raises \<open>AGENT_NOT_FOUND\<close>, not \<open>SESSION_NOT_FOUND\<close>. With the
  empty string as resume id, which the store does not hold, the session checks are
  skipped and the run proceeds as a fresh one.
\<close>

theorem resume_checks_counterexample:
  "\<not> has (store empty_world) ''s1''
   \<and> thrown_code (fst (runAgent example_registry
        \<lparr>p_agent = ''ghost'', p_task = ''haunt'', resume = Some ''s1'', fork = None\<rparr>
        None example_run empty_world)) = Some AGENT_NOT_FOUND
   \<and> \<not> has (store empty_world) []
   \<and> fst (runAgent example_registry
        \<lparr>p_agent = ''coder'', p_task = ''fix it'', resume = Some [], fork = None\<rparr>
        None example_run empty_world) =
       Inr \<lparr>success = True, result_session_id = ''s1'', summary = ''done'',
            artifacts = None, error = None\<rparr>"
proof (intro conjI)
  show "\<not> has (store empty_world) ''s1''"
    by (simp add: has_def empty_world_def empty_store_def)
  show "thrown_code (fst (runAgent example_registry
        \<lparr>p_agent = ''ghost'', p_task = ''haunt'', resume = Some ''s1'', fork = None\<rparr>
        None example_run empty_world)) = Some AGENT_NOT_FOUND"
    by (simp add: runAgent_def registry_getOrThrow_def example_registry_def)
  show "\<not> has (store empty_world) []"
    by (simp add: has_def empty_world_def empty_store_def)
  have "runAgent example_registry
        \<lparr>p_agent = ''coder'', p_task = ''fix it'', resume = Some [], fork = None\<rparr>
        None example_run empty_world =
      runAgent_try \<lparr>p_agent = ''coder'', p_task = ''fix it'', resume = Some [], fork = None\<rparr>
        None example_run empty_world"
    by (rule runAgent_fresh[where cfg = "\<lparr>name = ''coder'', description = ''writes code'',
                   systemPrompt = ''You write code.'', model = None\<rparr>"])
       (simp_all add: example_registry_def)
  then show "fst (runAgent example_registry
        \<lparr>p_agent = ''coder'', p_task = ''fix it'', resume = Some [], fork = None\<rparr>
        None example_run empty_world) =
       Inr \<lparr>success = True, result_session_id = ''s1'', summary = ''done'',
            artifacts = None, error = None\<rparr>"
    by (simp add: runAgent_try_eq loop_body_eq example_run_def initial_state_def
          returned_result_def)
qed

section \<open>Properties of the batch coordinator\<close>


lemma fst_runAgent_try_indep:
  "fst (runAgent_try params ctx run w) = fst (runAgent_try params ctx run w')"
  by (cases "thrown run") (simp_all add: runAgent_try_eq fst_foldl_loop_body)

lemma fst_runAgent_fresh_indep:
  assumes "\<not> truthy (resume params)"
  shows "fst (runAgent reg params ctx run w) = fst (runAgent reg params ctx run w')"
proof (cases "map_of reg (p_agent params)")
  case None
  then show ?thesis by (simp add: runAgent_def registry_getOrThrow_def)
next
  case (Some cfg)
  show ?thesis
    unfolding runAgent_fresh[OF Some assms] by (rule fst_runAgent_try_indep)
qed

lemma fst_runAgent_task:
  "fst (runAgent reg \<lparr>p_agent = b_agent task, p_task = b_task task, resume = None, fork = None\<rparr>
            None (task_run env) w) = task_outcome reg env task"
  unfolding task_outcome_def by (rule fst_runAgent_fresh_indep) simp

lemma run_task_Inl:
  assumes "task_outcome reg env task = Inl e"
  shows "fst (run_task reg env i task w) =
           \<lparr>success = False, result_session_id = ''failed'', summary = ''Failed: '' @ message e,
            artifacts = None, error = Some (message e),
            task_id = default_task_id i task, duration_ms = taskEnd env - taskStart env\<rparr>"
proof -
  obtain x w' where rw: "runAgent reg \<lparr>p_agent = b_agent task, p_task = b_task task, resume = None, fork = None\<rparr>
            None (task_run env) w = (x, w')" by (rule prod.exhaust)
  have "x = Inl e" using fst_runAgent_task[of reg task env w] assms rw by simp
  with rw show ?thesis by (simp add: run_task_def default_task_id_def)
qed

lemma run_task_Inr:
  assumes "task_outcome reg env task = Inr r"
  shows "fst (run_task reg env i task w) =
           \<lparr>success = success r, result_session_id = result_session_id r, summary = summary r,
            artifacts = artifacts r, error = error r,
            task_id = default_task_id i task, duration_ms = taskEnd env - taskStart env\<rparr>"
proof -
  obtain x w' where rw: "runAgent reg \<lparr>p_agent = b_agent task, p_task = b_task task, resume = None, fork = None\<rparr>
            None (task_run env) w = (x, w')" by (rule prod.exhaust)
  have "x = Inr r" using fst_runAgent_task[of reg task env w] assms rw by simp
  with rw show ?thesis by (simp add: run_task_def default_task_id_def)
qed

lemma run_task_fields:
  "task_id (fst (run_task reg env i task w)) = default_task_id i task"
  "duration_ms (fst (run_task reg env i task w)) = taskEnd env - taskStart env"
  "success (fst (run_task reg env i task w)) = (\<not> task_fails reg env task)"
  by (cases "task_outcome reg env task"; simp add: run_task_Inl run_task_Inr task_fails_def)+

lemma filter_single:
  "k < length xs \<Longrightarrow> (\<forall>i<length xs. P (xs ! i) = (i = k)) \<Longrightarrow> length (filter P xs) = 1"
proof (induction xs arbitrary: k)
  case Nil
  then show ?case by simp
next
  case (Cons x xs)
  show ?case
  proof (cases k)
    case 0
    with Cons.prems(2) have px: "P x" by auto
    have "\<forall>y\<in>set xs. \<not> P y"
    proof
      fix y assume "y \<in> set xs"
      then obtain j where j: "j < length xs" "xs ! j = y" by (auto simp: in_set_conv_nth)
      from Cons.prems(2)[rule_format, of "Suc j"] j 0 show "\<not> P y" by simp
    qed
    then have "filter P xs = []" by (simp add: filter_empty_conv)
    with px show ?thesis by simp
  next
    case (Suc k')
    from Cons.prems(2)[rule_format, of 0] Suc have npx: "\<not> P x" by simp
    have "\<forall>i<length xs. P (xs ! i) = (i = k')"
    proof (intro allI impI)
      fix i assume "i < length xs"
      with Cons.prems(2)[rule_format, of "Suc i"] Suc show "P (xs ! i) = (i = k')" by simp
    qed
    moreover from Cons.prems(1) Suc have "k' < length xs" by simp
    ultimately have "length (filter P xs) = 1" by (rule Cons.IH[rotated])
    with npx show ?thesis by simp
  qed
qed

lemma runAgent_begin_Inl:
  "runAgent_begin reg params w = Inl e \<Longrightarrow> runAgent reg params ctx run w = (Inl e, w)"
  by (cases "registry_getOrThrow reg (p_agent params)";
      cases "if truthy (resume params) then resume params else None")
     (auto simp: runAgent_begin_def runAgent_def split: if_splits)

lemma runAgent_begin_Inr:
  "runAgent_begin reg params w = Inr w1 \<Longrightarrow>
   w1 = w\<lparr>engine_calls := engine_calls w @ [engine_call_of params]\<rparr> \<and>
   runAgent reg params ctx run w = runAgent_try params ctx run w"
  by (cases "registry_getOrThrow reg (p_agent params)";
      cases "if truthy (resume params) then resume params else None")
     (auto simp: runAgent_begin_def runAgent_def split: if_splits)

lemma fst_runAgent_end: "fst (runAgent_end run rs w) = end_result run rs"
  by (cases "thrown run") (simp_all add: runAgent_end_def end_result_def)

lemma runAgent_try_steps:
  "runAgent_try params ctx run w =
     (case foldl (loop_body params (handle run))
             (initial_state ctx, w\<lparr>engine_calls := engine_calls w @ [engine_call_of params]\<rparr>)
             (events run) of
        (rs, w2) \<Rightarrow> (case runAgent_end run rs w2 of (r, w3) \<Rightarrow> (Inr r, w3)))"
  by (cases "thrown run") (simp_all add: runAgent_try_def runAgent_end_def split: prod.splits)

lemma runAgent_steps:
  "runAgent reg params ctx run w =
     (case runAgent_begin reg params w of
        Inl e \<Rightarrow> (Inl e, w)
      | Inr w1 \<Rightarrow>
          (case foldl (loop_body params (handle run)) (initial_state ctx, w1) (events run) of
             (rs, w2) \<Rightarrow> (case runAgent_end run rs w2 of (r, w3) \<Rightarrow> (Inr r, w3))))"
proof (cases "runAgent_begin reg params w")
  case (Inl e)
  then show ?thesis by (simp add: runAgent_begin_Inl)
next
  case (Inr w1)
  from runAgent_begin_Inr[OF Inr, of ctx run] Inr show ?thesis
    by (simp add: runAgent_try_steps)
qed

lemma settle_final_result: "fst (settle sl w) = final_result sl"
proof (cases sl)
  case (Settled r)
  then show ?thesis by (simp add: settle_def)
next
  case (Running fl)
  obtain rs w2 where f: "foldl (loop_body (fl_params fl) (handle (task_run (fl_env fl))))
                  (fl_state fl, w) (fl_pending fl) = (rs, w2)" by (rule prod.exhaust)
  have rs: "rs = foldl (\<lambda>rs ev. next_state (fl_params fl) (snd ev) rs) (fl_state fl) (fl_pending fl)"
    using fst_foldl_loop_body[of "fl_params fl" "handle (task_run (fl_env fl))" "fl_state fl" w
        "fl_pending fl"] f by simp
  obtain r w3 where e: "runAgent_end (task_run (fl_env fl)) rs w2 = (r, w3)" by (rule prod.exhaust)
  have "r = end_result (task_run (fl_env fl)) rs"
    using fst_runAgent_end[of "task_run (fl_env fl)" rs w2] e by simp
  with Running f e rs show ?thesis by (simp add: settle_def)
qed

lemma advance_final_result: "final_result (fst (advance sl w)) = final_result sl"
proof (cases sl)
  case (Settled r)
  then show ?thesis by (simp add: advance_def)
next
  case (Running fl)
  show ?thesis
  proof (cases "fl_pending fl")
    case Nil
    obtain r w' where e: "runAgent_end (task_run (fl_env fl)) (fl_state fl) w = (r, w')"
      by (rule prod.exhaust)
    have "r = end_result (task_run (fl_env fl)) (fl_state fl)"
      using fst_runAgent_end[of "task_run (fl_env fl)" "fl_state fl" w] e by simp
    with Running Nil e show ?thesis by (simp add: advance_def)
  next
    case (Cons ev rest)
    obtain now msg where ev: "ev = (now, msg)" by (cases ev)
    from Running Cons ev show ?thesis
      by (simp add: advance_def loop_body_eq)
  qed
qed

lemma run_schedule_final_result:
  "map final_result (fst (run_schedule sched slots w)) = map final_result slots"
proof (induction sched arbitrary: slots w)
  case Nil
  then show ?case by simp
next
  case (Cons i sched)
  show ?case
  proof (cases "i < length slots")
    case False
    then show ?thesis by (simp add: Cons.IH)
  next
    case True
    obtain sl w' where a: "advance (slots ! i) w = (sl, w')" by (rule prod.exhaust)
    have fr: "final_result sl = final_result (slots ! i)"
      using advance_final_result[of "slots ! i" w] a by simp
    have "map final_result (slots[i := sl]) = (map final_result slots)[i := final_result sl]"
      by (rule map_update)
    also have "\<dots> = map final_result slots"
      using True by (simp add: fr list_update_same_conv)
    finally have "map final_result (slots[i := sl]) = map final_result slots" .
    with True a show ?thesis by (simp add: Cons.IH)
  qed
qed

lemma settle_all_final_result: "fst (settle_all slots w) = map final_result slots"
proof (induction slots arbitrary: w)
  case Nil
  then show ?case by simp
next
  case (Cons sl sls)
  obtain r w1 where r: "settle sl w = (r, w1)" by (rule prod.exhaust)
  obtain rs w2 where rs: "settle_all sls w1 = (rs, w2)" by (rule prod.exhaust)
  have "r = final_result sl" using settle_final_result[of sl w] r by simp
  moreover have "rs = map final_result sls" using Cons.IH[of w1] rs by simp
  ultimately show ?case by (simp add: r rs)
qed

lemma start_task_final_result:
  "final_result (fst (start_task reg env i task w)) = fst (run_task reg env i task w)"
proof -
  let ?p = "\<lparr>p_agent = b_agent task, p_task = b_task task, resume = None, fork = None\<rparr>"
  show ?thesis
  proof (cases "runAgent_begin reg ?p w")
    case (Inl e)
    then have "runAgent reg ?p None (task_run env) w = (Inl e, w)"
      by (rule runAgent_begin_Inl)
    with Inl show ?thesis
      by (simp add: start_task_def run_task_def failed_task_def Let_def)
  next
    case (Inr w1)
    obtain rs w2 where f: "foldl (loop_body ?p (handle (task_run env))) (initial_state None, w1)
        (events (task_run env)) = (rs, w2)" by (rule prod.exhaust)
    have rs: "rs = foldl (\<lambda>rs ev. next_state ?p (snd ev) rs) (initial_state None) (events (task_run env))"
      using fst_foldl_loop_body[of ?p "handle (task_run env)" "initial_state None" w1
        "events (task_run env)"] f by simp
    obtain r w3 where e: "runAgent_end (task_run env) rs w2 = (r, w3)" by (rule prod.exhaust)
    have r: "r = end_result (task_run env) rs"
      using fst_runAgent_end[of "task_run env" rs w2] e by simp
    have "runAgent reg ?p None (task_run env) w = (Inr r, w3)"
      by (simp add: runAgent_steps Inr f e)
    with Inr rs r show ?thesis
      by (simp add: start_task_def run_task_def completed_task_def Let_def)
  qed
qed

lemma start_tasks_length: "length (fst (start_tasks reg env i ts w)) = length ts"
proof (induction ts arbitrary: i w)
  case Nil
  then show ?case by simp
next
  case (Cons t ts)
  obtain sl w1 where r: "start_task reg (env i) i t w = (sl, w1)" by (rule prod.exhaust)
  obtain sls w2 where rs: "start_tasks reg env (Suc i) ts w1 = (sls, w2)" by (rule prod.exhaust)
  from Cons.IH[of "Suc i" w1] show ?case by (simp add: r rs)
qed

lemma start_tasks_nth:
  "k < length ts \<Longrightarrow>
   \<exists>w'. fst (start_tasks reg env i ts w) ! k = fst (start_task reg (env (i + k)) (i + k) (ts ! k) w')"
proof (induction ts arbitrary: i k w)
  case Nil
  then show ?case by simp
next
  case (Cons t ts)
  obtain sl w1 where r: "start_task reg (env i) i t w = (sl, w1)" by (rule prod.exhaust)
  obtain sls w2 where rs: "start_tasks reg env (Suc i) ts w1 = (sls, w2)" by (rule prod.exhaust)
  show ?case
  proof (cases k)
    case 0
    have "fst (start_tasks reg env i (t # ts) w) ! 0 = fst (start_task reg (env i) i t w)"
      by (simp add: r rs)
    with 0 show ?thesis by auto
  next
    case (Suc k')
    with Cons.prems have "k' < length ts" by simp
    from Cons.IH[OF this, of "Suc i" w1]
    obtain w' where "fst (start_tasks reg env (Suc i) ts w1) ! k' =
        fst (start_task reg (env (Suc i + k')) (Suc i + k') (ts ! k') w')" ..
    then have "fst (start_tasks reg env i (t # ts) w) ! k =
        fst (start_task reg (env (i + k)) (i + k) ((t # ts) ! k) w')"
      by (simp add: r rs Suc)
    then show ?thesis ..
  qed
qed

lemma results_runAgentsBatch:
  "results (fst (runAgentsBatch reg tasks env sched batchStart batchEnd w)) =
     map final_result (fst (start_tasks reg env 0 tasks w))"
proof -
  obtain slots w1 where s: "start_tasks reg env 0 tasks w = (slots, w1)" by (rule prod.exhaust)
  obtain slots' w2 where r: "run_schedule sched slots w1 = (slots', w2)" by (rule prod.exhaust)
  obtain rs w3 where t: "settle_all slots' w2 = (rs, w3)" by (rule prod.exhaust)
  have "rs = map final_result slots'" using settle_all_final_result[of slots' w2] t by simp
  also have "\<dots> = map final_result slots"
    using run_schedule_final_result[of sched slots w1] r by simp
  finally show ?thesis by (simp add: runAgentsBatch_def s r t Let_def)
qed

lemma report_runAgentsBatch:
  "succeeded (fst (runAgentsBatch reg tasks env sched batchStart batchEnd w)) =
     length (filter success (results (fst (runAgentsBatch reg tasks env sched batchStart batchEnd w))))"
  "failed (fst (runAgentsBatch reg tasks env sched batchStart batchEnd w)) =
     length (filter (\<lambda>r. \<not> success r)
       (results (fst (runAgentsBatch reg tasks env sched batchStart batchEnd w))))"
  "all_success (fst (runAgentsBatch reg tasks env sched batchStart batchEnd w)) =
     (failed (fst (runAgentsBatch reg tasks env sched batchStart batchEnd w)) = 0)"
  "total_duration_ms (fst (runAgentsBatch reg tasks env sched batchStart batchEnd w)) =
     batchEnd - batchStart"
  by (simp_all add: runAgentsBatch_def Let_def split: prod.splits)

lemma results_nth:
  assumes "k < length tasks"
  shows "\<exists>w'. results (fst (runAgentsBatch reg tasks env sched batchStart batchEnd w)) ! k =
           fst (run_task reg (env k) k (tasks ! k) w')"
proof -
  from start_tasks_nth[OF assms, of reg env 0 w]
  obtain w' where w': "fst (start_tasks reg env 0 tasks w) ! k =
      fst (start_task reg (env k) k (tasks ! k) w')" by auto
  have "results (fst (runAgentsBatch reg tasks env sched batchStart batchEnd w)) ! k =
        final_result (fst (start_tasks reg env 0 tasks w) ! k)"
    using assms by (simp add: results_runAgentsBatch start_tasks_length)
  also have "\<dots> = fst (run_task reg (env k) k (tasks ! k) w')"
    by (simp only: w' start_task_final_result)
  finally show ?thesis ..
qed


text \<open>
  C5. \<open>runAgentsBatch\<close> always returns a report, whatever the order in which the
  streams deliver, with one task result per input task in input order: result \<open>i\<close>
  carries the id of task \<open>i\<close> (or \<open>task-i\<close>) and the duration measured between that
  task's own two clock readings, and is successful exactly when the task's \<open>runAgent\<close>
  call returned \<open>success = true\<close>. A call that throws becomes a failed result with the
  session id \<open>failed\<close> and the error's message. The counts add up to the number of
  tasks, and when exactly one task fails the report has \<open>succeeded = N - 1\<close>,
  \<open>failed = 1\<close>, \<open>all_success = false\<close> and every other result is successful.
\<close>

theorem runAgentsBatch_reports_every_task:
  fixes reg tasks env sched batchStart batchEnd w
  defines "B \<equiv> fst (runAgentsBatch reg tasks env sched batchStart batchEnd w)"
  shows
  "length (results B) = length tasks
   \<and> (\<forall>i<length tasks.
        task_id (results B ! i) = default_task_id i (tasks ! i)
      \<and> duration_ms (results B ! i) = taskEnd (env i) - taskStart (env i)
      \<and> success (results B ! i) = (\<not> task_fails reg (env i) (tasks ! i))
      \<and> (\<forall>e. task_outcome reg (env i) (tasks ! i) = Inl e \<longrightarrow>
            result_session_id (results B ! i) = ''failed''
          \<and> summary (results B ! i) = ''Failed: '' @ message e
          \<and> error (results B ! i) = Some (message e)))
   \<and> succeeded B + failed B = length tasks
   \<and> all_success B = (failed B = 0)
   \<and> total_duration_ms B = batchEnd - batchStart
   \<and> (k < length tasks \<and> (\<forall>i<length tasks. task_fails reg (env i) (tasks ! i) = (i = k)) \<longrightarrow>
        succeeded B = length tasks - 1 \<and> failed B = 1 \<and> \<not> all_success B
      \<and> (\<forall>j<length tasks. j \<noteq> k \<longrightarrow> success (results B ! j)))"
proof -
  let ?rs = "results B"
  have succ: "succeeded B = length (filter success ?rs)"
    and fail: "failed B = length (filter (\<lambda>r. \<not> success r) ?rs)"
    and alls: "all_success B = (failed B = 0)"
    and tot: "total_duration_ms B = batchEnd - batchStart"
    unfolding B_def by (rule report_runAgentsBatch)+
  have len: "length ?rs = length tasks"
    unfolding B_def by (simp add: results_runAgentsBatch start_tasks_length)
  have nth: "\<exists>w'. ?rs ! i = fst (run_task reg (env i) i (tasks ! i) w')" if "i < length tasks" for i
    unfolding B_def by (rule results_nth[OF that])
  have fields: "task_id (?rs ! i) = default_task_id i (tasks ! i)
      \<and> duration_ms (?rs ! i) = taskEnd (env i) - taskStart (env i)
      \<and> success (?rs ! i) = (\<not> task_fails reg (env i) (tasks ! i))
      \<and> (\<forall>e. task_outcome reg (env i) (tasks ! i) = Inl e \<longrightarrow>
            result_session_id (?rs ! i) = ''failed''
          \<and> summary (?rs ! i) = ''Failed: '' @ message e
          \<and> error (?rs ! i) = Some (message e))" if "i < length tasks" for i
  proof -
    from nth[OF that] obtain w' where w': "?rs ! i = fst (run_task reg (env i) i (tasks ! i) w')" ..
    show ?thesis unfolding w' by (simp add: run_task_fields run_task_Inl)
  qed
  have sum: "succeeded B + failed B = length tasks"
    unfolding succ fail using sum_length_filter_compl[of success ?rs] len by simp
  have one: "succeeded B = length tasks - 1 \<and> failed B = 1 \<and> \<not> all_success B
      \<and> (\<forall>j<length tasks. j \<noteq> k \<longrightarrow> success (results B ! j))"
    if h: "k < length tasks \<and> (\<forall>i<length tasks. task_fails reg (env i) (tasks ! i) = (i = k))"
  proof -
    have "\<forall>i<length ?rs. (\<not> success (?rs ! i)) = (i = k)"
      using h fields len by simp
    moreover have "k < length ?rs" using h len by simp
    ultimately have f1: "length (filter (\<lambda>r. \<not> success r) ?rs) = 1"
      by (rule filter_single[rotated])
    then have "failed B = 1" by (simp add: fail)
    moreover from this sum have "succeeded B = length tasks - 1" by simp
    moreover have "\<forall>j<length tasks. j \<noteq> k \<longrightarrow> success (results B ! j)"
      using h fields by simp
    ultimately show ?thesis using alls by simp
  qed
  show ?thesis
    using len fields sum alls tot one by blast
qed

theorem runAgentsBatch_reports_every_task_witness:
  "(1::nat) < length [example_task, example_bad_task]
   \<and> \<not> task_fails example_registry (example_env 0) example_task
   \<and> task_fails example_registry (example_env 1) example_bad_task
   \<and> length (results (fst (runAgentsBatch example_registry [example_task, example_bad_task]
        example_env example_schedule 0 12 empty_world))) = 2
   \<and> succeeded (fst (runAgentsBatch example_registry [example_task, example_bad_task]
        example_env example_schedule 0 12 empty_world)) = 1
   \<and> failed (fst (runAgentsBatch example_registry [example_task, example_bad_task]
        example_env example_schedule 0 12 empty_world)) = 1
   \<and> \<not> all_success (fst (runAgentsBatch example_registry [example_task, example_bad_task]
        example_env example_schedule 0 12 empty_world))"
proof -
  let ?tasks = "[example_task, example_bad_task]"
  have cfg: "map_of example_registry (p_agent \<lparr>p_agent = b_agent example_task, p_task = b_task example_task,
               resume = None, fork = None\<rparr>) =
             Some \<lparr>name = ''coder'', description = ''writes code'',
                   systemPrompt = ''You write code.'', model = None\<rparr>"
    by (simp add: example_registry_def example_task_def)
  have "task_outcome example_registry (example_env 0) example_task =
        Inr \<lparr>success = True, result_session_id = ''s1'', summary = ''done'',
             artifacts = None, error = None\<rparr>"
    unfolding task_outcome_def runAgent_fresh[OF cfg, simplified]
    by (simp add: runAgent_try_eq loop_body_eq example_env_def example_run_def initial_state_def
          returned_result_def)
  then have f0: "\<not> task_fails example_registry (example_env 0) example_task"
    by (simp add: task_fails_def)
  have "\<exists>e. task_outcome example_registry (example_env 1) example_bad_task = Inl e"
    by (simp add: task_outcome_def runAgent_def registry_getOrThrow_def example_registry_def
          example_bad_task_def)
  then have f1: "task_fails example_registry (example_env 1) example_bad_task"
    by (auto simp: task_fails_def)
  have l: "(1::nat) < length ?tasks" by simp
  have h: "\<forall>i<length ?tasks. task_fails example_registry (example_env i) (?tasks ! i) = (i = 1)"
  proof (intro allI impI)
    fix i assume "i < length ?tasks"
    then have "i = 0 \<or> i = 1" by auto
    then show "task_fails example_registry (example_env i) (?tasks ! i) = (i = 1)"
      using f0 f1 by auto
  qed
  note th = runAgentsBatch_reports_every_task [where reg = example_registry and tasks = ?tasks
      and env = example_env and sched = example_schedule and batchStart = 0 and batchEnd = 12
      and w = empty_world and k = 1]
  from th have a: "length (results (fst (runAgentsBatch example_registry ?tasks
        example_env example_schedule 0 12 empty_world))) = 2" by simp
  from th l h have b: "succeeded (fst (runAgentsBatch example_registry ?tasks example_env
            example_schedule 0 12 empty_world))
          = length ?tasks - 1
      \<and> failed (fst (runAgentsBatch example_registry ?tasks example_env example_schedule 0 12
            empty_world)) = 1
      \<and> \<not> all_success (fst (runAgentsBatch example_registry ?tasks example_env example_schedule
            0 12 empty_world))"
    by blast
  from l f0 f1 a b show ?thesis by simp
qed

text \<open>
  The state after a batch follows the schedule: the sessions enter the store in the
  order in which their streams establish them, while the report keeps the task order.
\<close>

lemma batch_state_follows_schedule:
  "map fst (sessions (store (snd (runAgentsBatch example_registry [example_task, example_task]
      example_two_env [0, 1] 0 12 empty_world)))) = [''a'', ''b'']
   \<and> map fst (sessions (store (snd (runAgentsBatch example_registry [example_task, example_task]
      example_two_env [1, 0] 0 12 empty_world)))) = [''b'', ''a'']
   \<and> map result_session_id (results (fst (runAgentsBatch example_registry
      [example_task, example_task] example_two_env [1, 0] 0 12 empty_world))) = [''a'', ''b'']"
  by (simp add: runAgentsBatch_def start_task_def runAgent_begin_def registry_getOrThrow_def
        example_registry_def example_task_def example_two_env_def example_run_of_def
        advance_def settle_def runAgent_end_def loop_body_eq cleanup_def save_def complete_def
        empty_world_def empty_store_def initial_state_def returned_result_def completed_task_def
        Let_def)

section \<open>Properties of the batch tool\<close>

text \<open>
  C7 (as amended). The \<open>run_agents_batch\<close> handler answers a request without an
  arguments object, a missing or empty task list, and a list of more than 10 tasks
  with an error response (\<open>isError\<close>) whose code is \<open>UNKNOWN_ERROR\<close>, leaving the state
  untouched; a list of 1 to 10 tasks is run by \<open>runAgentsBatch\<close> and its result
  returned.
\<close>

theorem call_run_agents_batch_limits:
  "(args = None \<longrightarrow>
      call_run_agents_batch reg args env sched bs be w =
        (IsError undefined_tasks_message ''UNKNOWN_ERROR'', w))
   \<and> (args = Some a \<and> (tasks_arg a = None \<or> tasks_arg a = Some []) \<longrightarrow>
      call_run_agents_batch reg args env sched bs be w =
        (IsError ''Missing required parameter: tasks (non-empty array)'' ''UNKNOWN_ERROR'', w))
   \<and> (10 < length ts \<longrightarrow>
      call_run_agents_batch reg (Some \<lparr>tasks_arg = Some ts\<rparr>) env sched bs be w =
        (IsError ''Maximum 10 tasks per batch'' ''UNKNOWN_ERROR'', w))
   \<and> (1 \<le> length ts \<and> length ts \<le> 10 \<longrightarrow>
      call_run_agents_batch reg (Some \<lparr>tasks_arg = Some ts\<rparr>) env sched bs be w =
        (Content (fst (runAgentsBatch reg ts env sched bs be w)),
         snd (runAgentsBatch reg ts env sched bs be w)))"
proof (intro conjI impI)
  assume "args = None"
  then show "call_run_agents_batch reg args env sched bs be w =
        (IsError undefined_tasks_message ''UNKNOWN_ERROR'', w)"
    by (simp add: call_run_agents_batch_def error_response_def)
next
  assume "args = Some a \<and> (tasks_arg a = None \<or> tasks_arg a = Some [])"
  then show "call_run_agents_batch reg args env sched bs be w =
        (IsError ''Missing required parameter: tasks (non-empty array)'' ''UNKNOWN_ERROR'', w)"
    by (auto simp: call_run_agents_batch_def error_response_def)
next
  assume "10 < length ts"
  then show "call_run_agents_batch reg (Some \<lparr>tasks_arg = Some ts\<rparr>) env sched bs be w =
        (IsError ''Maximum 10 tasks per batch'' ''UNKNOWN_ERROR'', w)"
    by (auto simp: call_run_agents_batch_def error_response_def)
next
  assume "1 \<le> length ts \<and> length ts \<le> 10"
  then show "call_run_agents_batch reg (Some \<lparr>tasks_arg = Some ts\<rparr>) env sched bs be w =
        (Content (fst (runAgentsBatch reg ts env sched bs be w)),
         snd (runAgentsBatch reg ts env sched bs be w))"
    by (cases "runAgentsBatch reg ts env sched bs be w")
       (auto simp: call_run_agents_batch_def)
qed

theorem call_run_agents_batch_limits_witness:
  "call_run_agents_batch example_registry None example_env example_schedule 0 12 empty_world =
        (IsError undefined_tasks_message ''UNKNOWN_ERROR'', empty_world)
   \<and> call_run_agents_batch example_registry (Some \<lparr>tasks_arg = Some []\<rparr>) example_env
        example_schedule 0 12 empty_world =
        (IsError ''Missing required parameter: tasks (non-empty array)'' ''UNKNOWN_ERROR'', empty_world)
   \<and> 10 < length (replicate 11 example_task)
   \<and> call_run_agents_batch example_registry (Some \<lparr>tasks_arg = Some (replicate 11 example_task)\<rparr>)
        example_env example_schedule 0 12 empty_world =
        (IsError ''Maximum 10 tasks per batch'' ''UNKNOWN_ERROR'', empty_world)
   \<and> 1 \<le> length [example_task] \<and> length [example_task] \<le> 10
   \<and> call_run_agents_batch example_registry (Some \<lparr>tasks_arg = Some [example_task]\<rparr>) example_env
        example_schedule 0 12 empty_world =
        (Content (fst (runAgentsBatch example_registry [example_task] example_env example_schedule
                    0 12 empty_world)),
         snd (runAgentsBatch example_registry [example_task] example_env example_schedule 0 12
                empty_world))"
  using call_run_agents_batch_limits [where args = None and reg = example_registry
          and env = example_env and sched = example_schedule and bs = 0 and be = 12
          and w = empty_world and ts = "replicate 11 example_task"]
        call_run_agents_batch_limits [where args = "Some \<lparr>tasks_arg = Some []\<rparr>"
          and a = "\<lparr>tasks_arg = Some []\<rparr>" and reg = example_registry
          and env = example_env and sched = example_schedule and bs = 0 and be = 12
          and w = empty_world and ts = "[example_task]"]
  by simp

text \<open>
  C7 as stated fails: the rejection is a plain \<open>Error\<close>, which the handler reports
  with the code \<open>UNKNOWN_ERROR\<close>; \<open>AgentErrorCode\<close> has no member for an invalid
  batch.
\<close>

theorem invalid_batch_code_counterexample:
  "call_run_agents_batch example_registry (Some \<lparr>tasks_arg = Some []\<rparr>) example_env
     example_schedule 0 12 empty_world =
     (IsError ''Missing required parameter: tasks (non-empty array)'' ''UNKNOWN_ERROR'', empty_world)
   \<and> call_run_agents_batch example_registry (Some \<lparr>tasks_arg = Some (replicate 11 example_task)\<rparr>)
     example_env example_schedule 0 12 empty_world =
     (IsError ''Maximum 10 tasks per batch'' ''UNKNOWN_ERROR'', empty_world)"
  by (simp add: call_run_agents_batch_def error_response_def)

end
